theory Spec2Isabelle
  imports Main "HOL-Library.Word"
begin

section \<open>JavaScript values\<close>

text \<open>
  The module under verification is \<^verbatim>\<open>includes/Mari/src/comment.js\<close>: the function
  \<^verbatim>\<open>createCommentPost\<close> and its helpers \<^verbatim>\<open>handleUpload\<close>, \<^verbatim>\<open>handleURL\<close>,
  \<^verbatim>\<open>handleMentions\<close>, \<^verbatim>\<open>handleSticker\<close> and \<^verbatim>\<open>createContent\<close>.

  A JavaScript string is a sequence of UTF-16 code units: \<^verbatim>\<open>length\<close> and \<^verbatim>\<open>indexOf\<close>
  count code units, while \<^verbatim>\<open>Buffer.from\<close> encodes the string as UTF-8 bytes.
\<close>

type_synonym jsstring = "16 word list"
type_synonym byte = "8 word"

text \<open>
  A number is an integer from \<open>-2^53\<close> to \<open>2^53 - 1\<close>, read from the word by \<open>sint\<close>.
  Every such integer is a JavaScript number, and \<^verbatim>\<open>String\<close> prints it in plain decimal.
  Fractions, \<^verbatim>\<open>NaN\<close>, the infinities and larger numbers are not modelled.
\<close>

type_synonym jsnumber = "54 word"

definition lit :: "string \<Rightarrow> jsstring" where
  "lit s = map (\<lambda>c. of_nat (of_char c)) s"

text \<open>
  The values that flow through the module: primitives, arrays and plain objects (an
  association list, the first binding of a key wins). Functions are kept apart (type
  \<open>arg\<close> below).
\<close>

datatype jsval =
    JUndefined
  | JNull
  | JBool bool
  | JNum jsnumber
  | JStr jsstring
  | JArr "jsval list"
  | JObj "(string \<times> jsval) list"

text \<open>Values that are thrown, or handed to the completion callback as its error.\<close>

datatype errval =
    Val jsval                \<comment> \<open>any value, e.g. \<^verbatim>\<open>throw res\<close> or \<^verbatim>\<open>{ error: '...' }\<close>\<close>
  | ErrorObject jsstring     \<comment> \<open>\<^verbatim>\<open>new Error(message)\<close>\<close>
  | TypeErrorObject          \<comment> \<open>a TypeError raised by the engine\<close>

fun typeof :: "jsval \<Rightarrow> string" where
  "typeof JUndefined = ''undefined''"
| "typeof JNull = ''object''"
| "typeof (JBool b) = ''boolean''"
| "typeof (JNum n) = ''number''"
| "typeof (JStr s) = ''string''"
| "typeof (JArr xs) = ''object''"
| "typeof (JObj kvs) = ''object''"

fun truthy :: "jsval \<Rightarrow> bool" where
  "truthy JUndefined = False"
| "truthy JNull = False"
| "truthy (JBool b) = b"
| "truthy (JNum n) = (n \<noteq> 0)"
| "truthy (JStr s) = (s \<noteq> [])"
| "truthy (JArr xs) = True"
| "truthy (JObj kvs) = True"

fun truthy_err :: "errval \<Rightarrow> bool" where
  "truthy_err (Val v) = truthy v"
| "truthy_err (ErrorObject m) = True"
| "truthy_err TypeErrorObject = True"

text \<open>
  Property read \<^verbatim>\<open>v.k\<close> for the keys the module reads from responses. Reading a
  property of \<^verbatim>\<open>undefined\<close> or \<^verbatim>\<open>null\<close> raises a TypeError; a primitive or an array
  has none of these keys.
\<close>

fun get :: "jsval \<Rightarrow> string \<Rightarrow> errval + jsval" where
  "get JUndefined k = Inl TypeErrorObject"
| "get JNull k = Inl TypeErrorObject"
| "get (JObj kvs) k = Inr (case map_of kvs k of None \<Rightarrow> JUndefined | Some v \<Rightarrow> v)"
| "get v k = Inr JUndefined"

subsection \<open>Number and value to string\<close>

definition digit_char :: "nat \<Rightarrow> char" where
  "digit_char d = ''0123456789'' ! d"

function decimal :: "nat \<Rightarrow> string" where
  "decimal n = (if n < 10 then [digit_char n] else decimal (n div 10) @ [digit_char (n mod 10)])"
  by pat_completeness auto
termination
  by (relation "measure id") auto

declare decimal.simps [simp del]

definition int_to_string :: "int \<Rightarrow> string" where
  "int_to_string i = (if i < 0 then CHR ''-'' # decimal (nat (- i)) else decimal (nat i))"

fun intersperse :: "'a list \<Rightarrow> 'a list list \<Rightarrow> 'a list" where
  "intersperse sep [] = []"
| "intersperse sep [x] = x"
| "intersperse sep (x # y # ys) = x @ sep @ intersperse sep (y # ys)"

text \<open>
  \<^verbatim>\<open>String(v)\<close>. An array joins its elements with commas, \<^verbatim>\<open>null\<close> and
  \<^verbatim>\<open>undefined\<close> elements giving the empty string; a plain object gives
  \<^verbatim>\<open>[object Object]\<close>.
\<close>

fun js_String :: "jsval \<Rightarrow> jsstring" where
  "js_String JUndefined = lit ''undefined''"
| "js_String JNull = lit ''null''"
| "js_String (JBool b) = (if b then lit ''true'' else lit ''false'')"
| "js_String (JNum n) = lit (int_to_string (sint n))"
| "js_String (JStr s) = s"
| "js_String (JArr xs) =
     intersperse (lit '','')
       (map (\<lambda>x. if x = JUndefined \<or> x = JNull then [] else js_String x) xs)"
| "js_String (JObj kvs) = lit ''[object Object]''"

subsection \<open>UTF-8 and base64\<close>

text \<open>
  \<^verbatim>\<open>Buffer.from(s)\<close> encodes the code units of \<open>s\<close> as UTF-8: a surrogate pair is one
  code point of four bytes, a lone surrogate becomes U+FFFD (EF BF BD).
\<close>

definition utf8_code_point :: "nat \<Rightarrow> byte list" where
  "utf8_code_point cp =
     (if cp < 0x80 then [of_nat cp]
      else if cp < 0x800 then [of_nat (0xC0 + cp div 64), of_nat (0x80 + cp mod 64)]
      else if cp < 0x10000 then
        [of_nat (0xE0 + cp div 4096), of_nat (0x80 + (cp div 64) mod 64), of_nat (0x80 + cp mod 64)]
      else
        [of_nat (0xF0 + cp div 262144), of_nat (0x80 + (cp div 4096) mod 64),
         of_nat (0x80 + (cp div 64) mod 64), of_nat (0x80 + cp mod 64)])"

definition is_high_surrogate :: "16 word \<Rightarrow> bool" where
  "is_high_surrogate u = (0xD800 \<le> unat u \<and> unat u < 0xDC00)"

definition is_low_surrogate :: "16 word \<Rightarrow> bool" where
  "is_low_surrogate u = (0xDC00 \<le> unat u \<and> unat u < 0xE000)"

fun utf8_encode :: "jsstring \<Rightarrow> byte list" where
  "utf8_encode [] = []"
| "utf8_encode [u] =
     (if is_high_surrogate u \<or> is_low_surrogate u then [0xEF, 0xBF, 0xBD]
      else utf8_code_point (unat u))"
| "utf8_encode (u # l # us) =
     (if is_high_surrogate u \<and> is_low_surrogate l then
        utf8_code_point (0x10000 + (unat u - 0xD800) * 1024 + (unat l - 0xDC00)) @ utf8_encode us
      else if is_high_surrogate u \<or> is_low_surrogate u then
        [0xEF, 0xBF, 0xBD] @ utf8_encode (l # us)
      else utf8_code_point (unat u) @ utf8_encode (l # us))"

definition base64_alphabet :: string where
  "base64_alphabet = ''ABCDEFGHIJKLMNOPQRSTUVWXYZabcdefghijklmnopqrstuvwxyz0123456789+/''"

definition base64_digit :: "nat \<Rightarrow> char" where
  "base64_digit n = base64_alphabet ! (n mod 64)"

text \<open>\<^verbatim>\<open>buf.toString('base64')\<close>: RFC 4648 with padding.\<close>

fun base64 :: "byte list \<Rightarrow> string" where
  "base64 [] = []"
| "base64 [a] =
     [base64_digit (unat a div 4), base64_digit ((unat a mod 4) * 16), CHR ''='', CHR ''='']"
| "base64 [a, b] =
     [base64_digit (unat a div 4), base64_digit ((unat a mod 4) * 16 + unat b div 16),
      base64_digit ((unat b mod 16) * 4), CHR ''='']"
| "base64 (a # b # c # rest) =
     [base64_digit (unat a div 4), base64_digit ((unat a mod 4) * 16 + unat b div 16),
      base64_digit ((unat b mod 16) * 4 + unat c div 64), base64_digit (unat c mod 64)]
     @ base64 rest"

text \<open>\<^verbatim>\<open>Buffer.from(s).toString('base64')\<close>\<close>

definition buffer_base64 :: "jsstring \<Rightarrow> jsstring" where
  "buffer_base64 s = lit (base64 (utf8_encode s))"

subsection \<open>\<^verbatim>\<open>String.prototype.indexOf\<close>\<close>

fun starts_with :: "'a list \<Rightarrow> 'a list \<Rightarrow> bool" where
  "starts_with s [] = True"
| "starts_with [] (t # ts) = False"
| "starts_with (c # s) (t # ts) = (c = t \<and> starts_with s ts)"

fun search_from :: "'a list \<Rightarrow> 'a list \<Rightarrow> nat \<Rightarrow> nat option" where
  "search_from [] t k = (if t = [] then Some k else None)"
| "search_from (c # s) t k =
     (if starts_with (c # s) t then Some k else search_from s t (Suc k))"

text \<open>
  \<^verbatim>\<open>s.indexOf(t, position)\<close>: the position is clamped to \<open>0 .. length s\<close>; the result
  is the first index at or after it where \<open>t\<close> occurs, or \<open>-1\<close>.
\<close>

definition indexOf :: "'a list \<Rightarrow> 'a list \<Rightarrow> int \<Rightarrow> int" where
  "indexOf s t position =
     (let start = min (nat (max 0 position)) (length s)
      in case search_from (drop start s) t start of None \<Rightarrow> - 1 | Some k \<Rightarrow> int k)"

section \<open>Data model\<close>

text \<open>
  The message object the caller passes, by the five properties the module reads: a body
  that is a string or absent, a list of attachments, a list of mentions, and any value
  for \<^verbatim>\<open>url\<close> and \<^verbatim>\<open>sticker\<close>. \<open>None\<close> is an absent property (\<^verbatim>\<open>undefined\<close> or
  \<^verbatim>\<open>null\<close>). An attachment is any value; whether it is a readable stream is decided by
  the collaborator \<^verbatim>\<open>utils.isReadableStream\<close>. A mention is an object with any value
  for \<^verbatim>\<open>tag\<close> and \<^verbatim>\<open>id\<close>, and an integer or nothing for \<^verbatim>\<open>fromIndex\<close>.
\<close>

record mention =
  tag :: jsval
  id' :: jsval
  fromIndex :: "int option"

record message_input =
  body :: "jsstring option"
  attachments :: "jsval list option"
  mentions :: "mention list option"
  url :: jsval
  sticker :: jsval

text \<open>
  The first argument of \<^verbatim>\<open>createCommentPost\<close>, by its JavaScript type. The second
  and the third argument are any value or a function (type \<open>arg\<close>); the fourth is a
  function or absent.
\<close>

datatype msg_arg =
    MString jsstring
  | MObject message_input
  | MNull
  | MUndefined
  | MBoolean bool
  | MNumber jsnumber
  | MFunction

fun typeof_msg :: "msg_arg \<Rightarrow> string" where
  "typeof_msg (MString s) = ''string''"
| "typeof_msg (MObject m) = ''object''"
| "typeof_msg MNull = ''object''"
| "typeof_msg MUndefined = ''undefined''"
| "typeof_msg (MBoolean b) = ''boolean''"
| "typeof_msg (MNumber n) = ''number''"
| "typeof_msg MFunction = ''function''"

text \<open>
  The completion callback receives \<^verbatim>\<open>(err)\<close> or \<^verbatim>\<open>(null, info)\<close>. A caller's function is
  given by what it does when called: it returns a value or throws.
\<close>

datatype completion = Failure errval | Success jsval

datatype cb_result = Returns jsval | Throws errval

type_synonym callback_fn = "completion \<Rightarrow> cb_result"

datatype arg = Value jsval | Func callback_fn

fun typeof_arg :: "arg \<Rightarrow> string" where
  "typeof_arg (Value v) = typeof v"
| "typeof_arg (Func f) = ''function''"

subsection \<open>The mutation form\<close>

datatype attachment_desc =
    Media jsval     \<comment> \<open>\<^verbatim>\<open>{ media: { id: v } }\<close>\<close>
  | Link jsval      \<comment> \<open>\<^verbatim>\<open>{ link: { external: { url: v } } }\<close>\<close>

record range =
  entity_id :: jsval     \<comment> \<open>\<^verbatim>\<open>entity: { id: v }\<close>\<close>
  length' :: int
  offset :: int

record form_message =
  ranges :: "range list"
  text' :: jsstring

record form_input =
  client_mutation_id :: jsstring
  actor_id :: jsval
  attachment_list :: "attachment_desc list"     \<comment> \<open>\<^verbatim>\<open>form.input.attachments\<close>\<close>
  feedback_id :: jsstring
  message :: form_message
  reply_comment_parent_fbid :: jsval
  is_tracking_encrypted :: bool
  tracking :: "jsval list"
  feedback_source :: jsstring
  idempotence_token :: jsstring
  session_id :: jsstring

record form =
  feedLocation :: jsstring
  feedbackSource :: int
  groupID :: jsval
  input :: form_input
  scale :: int
  useDefaultActor :: bool

subsection \<open>Collaborators\<close>

text \<open>
  \<^verbatim>\<open>utils\<close>, \<^verbatim>\<open>defaultFuncs\<close> and the random sources are not part of the module; they are
  parameters. A request to the upload endpoint answers after some time with a rejection
  or with the response parsed by \<^verbatim>\<open>utils.parseAndCheckLogin\<close>; the first argument of
  \<open>postFormData\<close> is the position of the call. \<open>random_rounded\<close> is the value of
  \<^verbatim>\<open>Math.round(Math.random() * 19)\<close>; \<open>getGUID_first\<close> and \<open>getGUID_second\<close> are
  the results of the two calls of \<^verbatim>\<open>utils.getGUID()\<close>.
\<close>

record ctx =
  userID :: jsval

record upload_request =
  profile_id :: jsval
  source :: int
  target_id :: jsval
  file' :: jsval

type_synonym 'a settled = "nat \<times> (errval + 'a)"     \<comment> \<open>time of settlement, outcome\<close>

record env =
  isReadableStream :: "jsval \<Rightarrow> bool"
  postFormData :: "nat \<Rightarrow> upload_request \<Rightarrow> jsval settled"
  post :: "form \<Rightarrow> errval + jsval"
  random_rounded :: nat
  getGUID_first :: jsstring
  getGUID_second :: jsstring

section \<open>The stages\<close>

definition and_then :: "errval + 'a \<Rightarrow> ('a \<Rightarrow> errval + 'b) \<Rightarrow> errval + 'b" where
  "and_then r f = (case r of Inl e \<Rightarrow> Inl e | Inr v \<Rightarrow> f v)"

definition push_attachment :: "form \<Rightarrow> attachment_desc \<Rightarrow> form" where
  "push_attachment f d =
     f\<lparr>input := (input f)\<lparr>attachment_list := attachment_list (input f) @ [d]\<rparr>\<rparr>"

definition push_range :: "form \<Rightarrow> range \<Rightarrow> form" where
  "push_range f r =
     f\<lparr>input := (input f)\<lparr>message :=
        (message (input f))\<lparr>ranges := ranges (message (input f)) @ [r]\<rparr>\<rparr>\<rparr>"

subsection \<open>\<^verbatim>\<open>handleUpload\<close>\<close>

text \<open>
  The handler chained on one upload:
  \<^verbatim>\<open>if (res.error || !res.payload || !res.payload.fbid) throw res;\<close>
  \<^verbatim>\<open>return { media: { id: res.payload.fbid } };\<close>
\<close>

definition check_upload :: "jsval \<Rightarrow> errval + attachment_desc" where
  "check_upload res =
     and_then (get res ''error'') (\<lambda>err.
       if truthy err then Inl (Val res)
       else and_then (get res ''payload'') (\<lambda>payload.
         if truthy payload then
           and_then (get payload ''fbid'') (\<lambda>fbid.
             if truthy fbid then Inr (Media fbid) else Inl (Val res))
         else Inl (Val res)))"

definition upload_request_for :: "ctx \<Rightarrow> jsval \<Rightarrow> upload_request" where
  "upload_request_for c item =
     \<lparr>profile_id = userID c, source = 19, target_id = userID c, file' = item\<rparr>"

definition upload_one :: "env \<Rightarrow> ctx \<Rightarrow> nat \<Rightarrow> jsval \<Rightarrow> attachment_desc settled" where
  "upload_one e c i item =
     (case postFormData e i (upload_request_for c item) of
        (t, r) \<Rightarrow> (t, and_then r check_upload))"

text \<open>
  \<^verbatim>\<open>msg.attachments.map(function(item) { ... })\<close> runs in the turn of the call: for each
  item in order it checks the stream and then calls \<^verbatim>\<open>postFormData\<close>, which issues the
  request. A throw stops the map. The result is the list of requests issued so far and
  either the thrown error or the promises of the uploads.
\<close>

fun map_uploads ::
  "env \<Rightarrow> ctx \<Rightarrow> nat \<Rightarrow> jsval list
     \<Rightarrow> upload_request list \<times> (errval + attachment_desc settled list)" where
  "map_uploads e c i [] = ([], Inr [])"
| "map_uploads e c i (item # items) =
     (if isReadableStream e item then
        (case map_uploads e c (Suc i) items of
           (reqs, r) \<Rightarrow>
             (upload_request_for c item # reqs,
              and_then r (\<lambda>ps. Inr (upload_one e c i item # ps))))
      else ([], Inl (ErrorObject (lit ''Attachments must be a readable stream.''))))"

text \<open>
  \<^verbatim>\<open>Promise.all\<close>: rejected with the rejection that settles first (the earlier promise
  among equal times), else fulfilled with the values in the order of the promises.
\<close>

fun earliest_rejection :: "'a settled list \<Rightarrow> (nat \<times> errval) option" where
  "earliest_rejection [] = None"
| "earliest_rejection ((t, Inr v) # ps) = earliest_rejection ps"
| "earliest_rejection ((t, Inl x) # ps) =
     (case earliest_rejection ps of
        None \<Rightarrow> Some (t, x)
      | Some (t', x') \<Rightarrow> if t' < t then Some (t', x') else Some (t, x))"

fun fulfilled_values :: "'a settled list \<Rightarrow> 'a list" where
  "fulfilled_values [] = []"
| "fulfilled_values ((t, Inr v) # ps) = v # fulfilled_values ps"
| "fulfilled_values ((t, Inl x) # ps) = fulfilled_values ps"

definition promise_all :: "'a settled list \<Rightarrow> errval + 'a list" where
  "promise_all ps =
     (case earliest_rejection ps of
        Some (t, x) \<Rightarrow> Inl x
      | None \<Rightarrow> Inr (fulfilled_values ps))"

text \<open>The requests issued, and the form or the error that rejects the stage.\<close>

definition handleUpload ::
  "env \<Rightarrow> ctx \<Rightarrow> message_input \<Rightarrow> form \<Rightarrow> upload_request list \<times> (errval + form)" where
  "handleUpload e c msg f =
     (case attachments msg of
        None \<Rightarrow> ([], Inr f)
      | Some [] \<Rightarrow> ([], Inr f)
      | Some (item # items) \<Rightarrow>
          (case map_uploads e c 0 (item # items) of
             (reqs, uploads) \<Rightarrow>
               (reqs,
                and_then uploads (\<lambda>ps.
                  and_then (promise_all ps) (\<lambda>results.
                    Inr (foldl push_attachment f results))))))"

subsection \<open>\<^verbatim>\<open>handleURL\<close>, \<^verbatim>\<open>handleMentions\<close>, \<^verbatim>\<open>handleSticker\<close>\<close>

definition handleURL :: "message_input \<Rightarrow> form \<Rightarrow> form" where
  "handleURL msg f =
     (if typeof (url msg) = ''string'' then push_attachment f (Link (url msg)) else f)"

text \<open>
  The loop of \<^verbatim>\<open>handleMentions\<close>. \<^verbatim>\<open>msg.body.indexOf\<close> raises a TypeError when the
  message has no body; \<^verbatim>\<open>fromIndex || 0\<close> is 0 for an absent \<^verbatim>\<open>fromIndex\<close>. The logger
  calls are left out.
\<close>

fun mentions_loop :: "jsstring option \<Rightarrow> mention list \<Rightarrow> form \<Rightarrow> errval + form" where
  "mentions_loop b [] f = Inr f"
| "mentions_loop b (item # items) f =
     (case tag item of
        JStr t \<Rightarrow>
          if truthy (id' item) then
            (case b of
               None \<Rightarrow> Inl TypeErrorObject
             | Some s \<Rightarrow>
                 (let off = indexOf s t (case fromIndex item of None \<Rightarrow> 0 | Some i \<Rightarrow> i)
                  in if off < 0 then mentions_loop b items f
                     else mentions_loop b items
                            (push_range f
                               \<lparr>entity_id = id' item, length' = int (length t), offset = off\<rparr>)))
          else mentions_loop b items f
      | _ \<Rightarrow> mentions_loop b items f)"

definition handleMentions :: "message_input \<Rightarrow> form \<Rightarrow> errval + form" where
  "handleMentions msg f =
     (case mentions msg of
        None \<Rightarrow> Inr f
      | Some ms \<Rightarrow> mentions_loop (body msg) ms f)"

definition handleSticker :: "message_input \<Rightarrow> form \<Rightarrow> form" where
  "handleSticker msg f =
     (if truthy (sticker msg) then push_attachment f (Media (JStr (js_String (sticker msg))))
      else f)"

subsection \<open>\<^verbatim>\<open>createContent\<close>\<close>

definition extract_result :: "jsval \<Rightarrow> errval + jsval" where
  "extract_result res =
     and_then (get res ''data'') (\<lambda>data.
     and_then (get data ''comment_create'') (\<lambda>comment_create.
     and_then (get comment_create ''feedback_comment_edge'') (\<lambda>commentEdge.
     and_then (get commentEdge ''node'') (\<lambda>node.
     and_then (get node ''id'') (\<lambda>ident.
     and_then (get node ''feedback'') (\<lambda>node_feedback.
     and_then (get node_feedback ''url'') (\<lambda>u.
     and_then (get comment_create ''feedback'') (\<lambda>feedback.
     and_then (get feedback ''total_comment_count'') (\<lambda>n.
       Inr (JObj [(''id'', ident), (''url'', u), (''count'', n)]))))))))))"

text \<open>
  \<open>post e f\<close> is the settled value of
  \<^verbatim>\<open>defaultFuncs.post(..., { ..., variables: JSON.stringify(form), ... })\<close>
  followed by \<^verbatim>\<open>utils.parseAndCheckLogin\<close>; the request is identified by the form it
  serialises.
\<close>

definition createContent :: "env \<Rightarrow> form \<Rightarrow> errval + jsval" where
  "createContent e f =
     and_then (post e f) (\<lambda>res.
       and_then (get res ''errors'') (\<lambda>errors.
         if truthy errors then Inl (Val res) else extract_result res))"

section \<open>The entry point \<^verbatim>\<open>createCommentPost\<close>\<close>

text \<open>
  What a call does: how it returns, the requests and callback invocations made before it
  returns and those made in later turns (in order), and the final state of
  \<^verbatim>\<open>returnPromise\<close>.
\<close>

datatype promise_state = Pending | Fulfilled jsval | Rejected errval

datatype returned = ReturnsPromise | ReturnsValue jsval | ThrowsSync errval

datatype event =
    UploadRequest upload_request
  | MutationRequest form
  | CallbackCall completion

record outcome =
  returned :: returned
  during_call :: "event list"
  after_call :: "event list"
  returnPromise :: promise_state

text \<open>
  \<^verbatim>\<open>if (typeof replyCommentID === 'function') { callback = replyCommentID; replyCommentID = null; }\<close>
\<close>

definition optional_parameters ::
  "arg \<Rightarrow> callback_fn option \<Rightarrow> callback_fn option \<times> jsval" where
  "optional_parameters replyCommentID callback =
     (case replyCommentID of
        Func g \<Rightarrow> (Some g, JNull)
      | Value v \<Rightarrow> (callback, v))"

text \<open>
  The variable \<^verbatim>\<open>callback\<close> holds the caller's function, or else
  \<^verbatim>\<open>function(err, data) { if (err) return rejectFunc(err); resolveFunc(data); }\<close>.
  Invoking it gives what the function returns or throws, and the state it leaves a
  pending \<^verbatim>\<open>returnPromise\<close> in.
\<close>

datatype handler = DefaultCallback | CallerCallback callback_fn

fun invoke :: "handler \<Rightarrow> completion \<Rightarrow> cb_result \<times> promise_state" where
  "invoke DefaultCallback (Failure err) =
     (Returns JUndefined, if truthy_err err then Rejected err else Fulfilled JUndefined)"
| "invoke DefaultCallback (Success info) = (Returns JUndefined, Fulfilled info)"
| "invoke (CallerCallback g) c = (g c, Pending)"

text \<open>\<^verbatim>\<open>if (!callback) { callback = function(err, data) { ... }; }\<close>\<close>

definition completion_handler :: "callback_fn option \<Rightarrow> handler" where
  "completion_handler callback =
     (case callback of None \<Rightarrow> DefaultCallback | Some g \<Rightarrow> CallerCallback g)"

text \<open>A promise is settled once: a later settlement of a settled promise is ignored.\<close>

definition settle_once :: "promise_state \<Rightarrow> promise_state \<Rightarrow> promise_state" where
  "settle_once p q = (if p = Pending then q else p)"

fun string_arg :: "arg \<Rightarrow> jsstring option" where
  "string_arg (Value (JStr s)) = Some s"
| "string_arg other = None"

text \<open>
  \<open>string_arg postID = None\<close> is \<^verbatim>\<open>typeof postID !== 'string'\<close> (lemma
  \<open>string_arg_None\<close> below); otherwise it is the string.
\<close>

text \<open>\<^verbatim>\<open>return callback({ error: error });\<close>\<close>

definition fail_validation :: "handler \<Rightarrow> string \<Rightarrow> outcome" where
  "fail_validation h m =
     (case invoke h (Failure (Val (JObj [(''error'', JStr (lit m))]))) of
        (r, p) \<Rightarrow>
          \<lparr>returned = (case r of Returns v \<Rightarrow> ReturnsValue v | Throws x \<Rightarrow> ThrowsSync x),
           during_call = [CallbackCall (Failure (Val (JObj [(''error'', JStr (lit m))])))],
           after_call = [],
           returnPromise = p\<rparr>)"

text \<open>
  \<^verbatim>\<open>messageObject = typeof msg === 'string' ? { body: msg } : msg\<close>, then the two
  defaults. Assigning a property on \<^verbatim>\<open>null\<close> raises a TypeError (the other cases do
  not pass the validation).
\<close>

fun normalize :: "msg_arg \<Rightarrow> message_input option" where
  "normalize (MString s) =
     Some \<lparr>body = Some s, attachments = Some [], mentions = Some [],
           url = JUndefined, sticker = JUndefined\<rparr>"
| "normalize (MObject m) =
     Some (m\<lparr>mentions := Some (case mentions m of None \<Rightarrow> [] | Some ms \<Rightarrow> ms),
             attachments := Some (case attachments m of None \<Rightarrow> [] | Some xs \<Rightarrow> xs)\<rparr>)"
| "normalize other = None"

definition build_form :: "env \<Rightarrow> ctx \<Rightarrow> message_input \<Rightarrow> jsstring \<Rightarrow> jsval \<Rightarrow> form" where
  "build_form e c messageObject postID replyCommentID =
     \<lparr>feedLocation = lit ''NEWSFEED'',
      feedbackSource = 1,
      groupID = JNull,
      input =
        \<lparr>client_mutation_id = lit (decimal (random_rounded e)),
         actor_id = userID c,
         attachment_list = [],
         feedback_id = buffer_base64 (lit ''feedback:'' @ postID),
         message =
           \<lparr>ranges = [],
            text' = (case body messageObject of None \<Rightarrow> [] | Some s \<Rightarrow> s)\<rparr>,
         reply_comment_parent_fbid = (if truthy replyCommentID then replyCommentID else JNull),
         is_tracking_encrypted = True,
         tracking = [],
         feedback_source = lit ''NEWS_FEED'',
         idempotence_token = lit ''client:'' @ getGUID_first e,
         session_id = getGUID_second e\<rparr>,
      scale = 1,
      useDefaultActor = False\<rparr>"

text \<open>
  The promise chain: \<^verbatim>\<open>handleUpload(...).then(function() { ... })\<close> runs the three
  mergers on the form and hands it to \<^verbatim>\<open>createContent\<close>. \<open>assemble\<close> is the chain up
  to that call: the upload requests issued, and the assembled form or the rejection.
  \<open>run_stages\<close> adds the submission: the forms submitted to the mutation endpoint and the
  value or rejection of the chain.
\<close>

definition assemble ::
  "env \<Rightarrow> ctx \<Rightarrow> message_input \<Rightarrow> form \<Rightarrow> upload_request list \<times> (errval + form)" where
  "assemble e c msg f =
     (case handleUpload e c msg f of
        (reqs, r) \<Rightarrow>
          (reqs,
           and_then r (\<lambda>f1.
             and_then (handleMentions msg (handleURL msg f1)) (\<lambda>f2.
               Inr (handleSticker msg f2)))))"

definition run_stages ::
  "env \<Rightarrow> ctx \<Rightarrow> message_input \<Rightarrow> form
     \<Rightarrow> upload_request list \<times> form list \<times> (errval + jsval)" where
  "run_stages e c msg f =
     (case assemble e c msg f of
        (reqs, Inl err) \<Rightarrow> (reqs, [], Inl err)
      | (reqs, Inr f3) \<Rightarrow> (reqs, [f3], createContent e f3))"

text \<open>
  \<^verbatim>\<open>.then(function(info) { callback(null, info); }).catch(function(err) { callback(err); })\<close>:
  a throw of the callback in the first handler is caught by the second.
\<close>

definition complete :: "handler \<Rightarrow> errval + jsval \<Rightarrow> event list \<times> promise_state" where
  "complete h r =
     (case r of
        Inl err \<Rightarrow> ([CallbackCall (Failure err)], snd (invoke h (Failure err)))
      | Inr info \<Rightarrow>
          (case invoke h (Success info) of
             (Returns v, p) \<Rightarrow> ([CallbackCall (Success info)], p)
           | (Throws x, p) \<Rightarrow>
               ([CallbackCall (Success info), CallbackCall (Failure x)],
                settle_once p (snd (invoke h (Failure x))))))"

definition createCommentPost ::
  "env \<Rightarrow> ctx \<Rightarrow> msg_arg \<Rightarrow> arg \<Rightarrow> arg \<Rightarrow> callback_fn option \<Rightarrow> outcome" where
  "createCommentPost e c msg postID replyCommentID callback =
     (case optional_parameters replyCommentID callback of
        (callback1, replyCommentID1) \<Rightarrow>
     if typeof_msg msg \<noteq> ''string'' \<and> typeof_msg msg \<noteq> ''object'' then
       fail_validation (completion_handler callback1) ''Message must be a string or an object.''
     else
       (case string_arg postID of
          None \<Rightarrow> fail_validation (completion_handler callback1) ''postID must be a string.''
        | Some p \<Rightarrow>
            (case normalize msg of
               None \<Rightarrow>
                 \<lparr>returned = ThrowsSync TypeErrorObject, during_call = [], after_call = [],
                  returnPromise = Pending\<rparr>
             | Some messageObject \<Rightarrow>
                 (case run_stages e c messageObject
                         (build_form e c messageObject p replyCommentID1) of
                    (reqs, submitted, r) \<Rightarrow>
                      (case complete (completion_handler callback1) r of
                         (calls, pr) \<Rightarrow>
                           \<lparr>returned = ReturnsPromise,
                            during_call = map UploadRequest reqs,
                            after_call = map MutationRequest submitted @ calls,
                            returnPromise = pr\<rparr>)))))"

section \<open>Notions used in the properties\<close>

text \<open>The error object of a failed validation: \<^verbatim>\<open>{ error: m }\<close>.\<close>

definition validation_error :: "string \<Rightarrow> errval" where
  "validation_error m = Val (JObj [(''error'', JStr (lit m))])"

text \<open>The requests and the callback invocations of a call, in order.\<close>

fun upload_of :: "event \<Rightarrow> upload_request list" where
  "upload_of (UploadRequest r) = [r]"
| "upload_of other = []"

fun mutation_of :: "event \<Rightarrow> form list" where
  "mutation_of (MutationRequest f) = [f]"
| "mutation_of other = []"

fun callback_of :: "event \<Rightarrow> completion list" where
  "callback_of (CallbackCall x) = [x]"
| "callback_of other = []"

definition upload_requests :: "outcome \<Rightarrow> upload_request list" where
  "upload_requests out = concat (map upload_of (during_call out @ after_call out))"

definition mutation_requests :: "outcome \<Rightarrow> form list" where
  "mutation_requests out = concat (map mutation_of (during_call out @ after_call out))"

definition callback_calls :: "outcome \<Rightarrow> completion list" where
  "callback_calls out = concat (map callback_of (during_call out @ after_call out))"

text \<open>
  Dual completion as the specification words it: the call returns the awaitable, the
  callback is invoked exactly once, and the awaitable is settled with the outcome and
  value of that invocation.
\<close>

definition dual_completion :: "outcome \<Rightarrow> bool" where
  "dual_completion out =
     (returned out = ReturnsPromise \<and>
      (case callback_calls out of
         [Success info] \<Rightarrow> returnPromise out = Fulfilled info
       | [Failure err] \<Rightarrow> returnPromise out = Rejected err
       | _ \<Rightarrow> False))"

text \<open>A form with items appended to its attachment list and to its mention ranges.\<close>

definition add_lists :: "attachment_desc list \<Rightarrow> range list \<Rightarrow> form \<Rightarrow> form" where
  "add_lists ds rs f =
     f\<lparr>input := (input f)\<lparr>attachment_list := attachment_list (input f) @ ds,
        message := (message (input f))\<lparr>ranges := ranges (message (input f)) @ rs\<rparr>\<rparr>\<rparr>"

text \<open>A form with its three per-call fields replaced.\<close>

definition set_tokens :: "jsstring \<Rightarrow> jsstring \<Rightarrow> jsstring \<Rightarrow> form \<Rightarrow> form" where
  "set_tokens mutation_id idempotence session f =
     f\<lparr>input := (input f)\<lparr>client_mutation_id := mutation_id,
        idempotence_token := idempotence, session_id := session\<rparr>\<rparr>"

text \<open>
  Two request bodies that are equal except for the idempotency token and the session
  token, as the specification words it.
\<close>

definition same_except_tokens :: "form \<Rightarrow> form \<Rightarrow> bool" where
  "same_except_tokens f g =
     (f\<lparr>input := (input f)\<lparr>idempotence_token := [], session_id := []\<rparr>\<rparr> =
      g\<lparr>input := (input g)\<lparr>idempotence_token := [], session_id := []\<rparr>\<rparr>)"

text \<open>
  Occurrences of a tag in a body. \<open>search_start\<close> is the position at which
  \<^verbatim>\<open>indexOf\<close> starts; \<open>from_position\<close> is \<^verbatim>\<open>fromIndex || 0\<close>.
\<close>

definition occurs_at :: "'a list \<Rightarrow> 'a list \<Rightarrow> nat \<Rightarrow> bool" where
  "occurs_at s t k = (k + length t \<le> length s \<and> take (length t) (drop k s) = t)"

definition search_start :: "'a list \<Rightarrow> int \<Rightarrow> nat" where
  "search_start s position = min (nat (max 0 position)) (length s)"

definition first_occurrence :: "'a list \<Rightarrow> 'a list \<Rightarrow> int \<Rightarrow> nat \<Rightarrow> bool" where
  "first_occurrence s t position k =
     (search_start s position \<le> k \<and> occurs_at s t k \<and>
      (\<forall>j<k. search_start s position \<le> j \<longrightarrow> \<not> occurs_at s t j))"

definition from_position :: "mention \<Rightarrow> int" where
  "from_position item = (case fromIndex item of None \<Rightarrow> 0 | Some i \<Rightarrow> i)"

text \<open>
  The messages on which \<^verbatim>\<open>handleMentions\<close> raises its TypeError: no body, and a mention
  with a string tag and a truthy id.
\<close>

definition mentions_raise :: "message_input \<Rightarrow> bool" where
  "mentions_raise m =
     (body m = None \<and>
      list_ex (\<lambda>item. typeof (tag item) = ''string'' \<and> truthy (id' item))
        (case mentions m of None \<Rightarrow> [] | Some ms \<Rightarrow> ms))"

text \<open>The ranges one mention appends to a message with body \<open>b\<close>.\<close>

definition range_of :: "jsstring \<Rightarrow> mention \<Rightarrow> range list" where
  "range_of b item =
     (case tag item of
        JStr t \<Rightarrow>
          if truthy (id' item) \<and> 0 \<le> indexOf b t (from_position item) then
            [\<lparr>entity_id = id' item, length' = int (length t),
              offset = indexOf b t (from_position item)\<rparr>]
          else []
      | _ \<Rightarrow> [])"

text \<open>
  What one mention yields, as the specification words it: the range of the first
  occurrence of its tag at or after \<^verbatim>\<open>fromIndex\<close> when the tag is a non-empty string,
  the id is present and the tag occurs there; nothing when the tag is not a string, the
  id is missing, or the tag is not found from the start of the search on.
\<close>

definition mention_yields :: "jsstring \<Rightarrow> mention \<Rightarrow> range list \<Rightarrow> bool" where
  "mention_yields b item rs =
     ((\<forall>t k. tag item = JStr t \<and> t \<noteq> [] \<and> truthy (id' item) \<and>
             from_position item \<le> int k \<and> occurs_at b t k \<and>
             (\<forall>j<k. from_position item \<le> int j \<longrightarrow> \<not> occurs_at b t j)
         \<longrightarrow> rs = [\<lparr>entity_id = id' item, length' = int (length t), offset = int k\<rparr>]) \<and>
      ((\<forall>t. tag item \<noteq> JStr t) \<or> \<not> truthy (id' item) \<or>
       (\<exists>t. tag item = JStr t \<and>
          (\<forall>k. search_start b (from_position item) \<le> k \<longrightarrow> \<not> occurs_at b t k))
         \<longrightarrow> rs = []))"

subsection \<open>Concrete collaborators and inputs\<close>

text \<open>
  A server that accepts every upload and every comment, and one whose mutation response
  carries an error collection. The two values \<open>stream_a\<close> and \<open>stream_b\<close> are the only
  readable streams.
\<close>

definition stream_a :: jsval where
  "stream_a = JObj [(''path'', JStr (lit ''a.png''))]"

definition stream_b :: jsval where
  "stream_b = JObj [(''path'', JStr (lit ''b.png''))]"

definition upload_response :: "nat \<Rightarrow> jsval" where
  "upload_response n = JObj [(''payload'', JObj [(''fbid'', JNum (of_nat n))])]"

definition created_response :: jsval where
  "created_response =
     JObj [(''data'', JObj [(''comment_create'', JObj
       [(''feedback_comment_edge'', JObj [(''node'', JObj
           [(''id'', JStr (lit ''c1'')),
            (''feedback'', JObj [(''url'', JStr (lit ''https://fb/c1''))])])]),
        (''feedback'', JObj [(''total_comment_count'', JNum 3)])])])]"

definition created_info :: jsval where
  "created_info =
     JObj [(''id'', JStr (lit ''c1'')), (''url'', JStr (lit ''https://fb/c1'')),
           (''count'', JNum 3)]"

definition example_env :: env where
  "example_env =
     \<lparr>isReadableStream = (\<lambda>v. v = stream_a \<or> v = stream_b),
      postFormData = (\<lambda>i r. (i, Inr (upload_response (100 + i)))),
      post = (\<lambda>f. Inr created_response),
      random_rounded = 7,
      getGUID_first = lit ''g1'',
      getGUID_second = lit ''g2''\<rparr>"

definition example_ctx :: ctx where
  "example_ctx = \<lparr>userID = JStr (lit ''1000'')\<rparr>"

text \<open>The same collaborators with other random draws.\<close>

definition second_env :: env where
  "second_env =
     example_env\<lparr>random_rounded := 12, getGUID_first := lit ''g3'',
                 getGUID_second := lit ''g4''\<rparr>"

definition error_collection :: jsval where
  "error_collection = JArr [JObj [(''message'', JStr (lit ''Rate limited''))]]"

definition error_response :: jsval where
  "error_response = JObj [(''errors'', error_collection)]"

definition error_env :: env where
  "error_env = example_env\<lparr>post := (\<lambda>f. Inr error_response)\<rparr>"

definition returning_callback :: callback_fn where
  "returning_callback x = Returns JUndefined"

definition world_mention :: mention where
  "world_mention = \<lparr>tag = JStr (lit ''world''), id' = JStr (lit ''42''), fromIndex = None\<rparr>"

definition moon_mention :: mention where
  "moon_mention = \<lparr>tag = JStr (lit ''moon''), id' = JStr (lit ''7''), fromIndex = None\<rparr>"

definition hello_message :: message_input where
  "hello_message =
     \<lparr>body = Some (lit ''hello world''), attachments = None,
      mentions = Some [world_mention, moon_mention],
      url = JUndefined, sticker = JUndefined\<rparr>"

definition photo_message :: message_input where
  "photo_message =
     \<lparr>body = Some (lit ''look''), attachments = Some [stream_a, stream_b], mentions = None,
      url = JStr (lit ''https://example.org''), sticker = JNum 369\<rparr>"

text \<open>A message whose second attachment is a path, not a stream.\<close>

definition mixed_message :: message_input where
  "mixed_message =
     \<lparr>body = Some (lit ''look''), attachments = Some [stream_a, JStr (lit ''b.png'')],
      mentions = None, url = JUndefined, sticker = JUndefined\<rparr>"

text \<open>An object message with a mention and a sticker, and no body.\<close>

definition bodyless_message :: message_input where
  "bodyless_message =
     \<lparr>body = None, attachments = None, mentions = Some [world_mention],
      url = JUndefined, sticker = JStr (lit ''369'')\<rparr>"

text \<open>An object message with a photo and a mention, and no body; and one without the mention.\<close>

definition bodyless_photo_message :: message_input where
  "bodyless_photo_message =
     \<lparr>body = None, attachments = Some [stream_a], mentions = Some [world_mention],
      url = JUndefined, sticker = JUndefined\<rparr>"

definition photo_only_message :: message_input where
  "photo_only_message =
     \<lparr>body = None, attachments = Some [stream_a], mentions = None,
      url = JUndefined, sticker = JUndefined\<rparr>"

definition example_form :: form where
  "example_form = build_form example_env example_ctx hello_message (lit ''1'') JNull"

section \<open>Properties\<close>

lemmas example_defs =
  example_env_def example_ctx_def second_env_def error_env_def error_response_def
  error_collection_def returning_callback_def world_mention_def moon_mention_def
  hello_message_def photo_message_def mixed_message_def bodyless_message_def example_form_def
  bodyless_photo_message_def photo_only_message_def
  stream_a_def stream_b_def upload_response_def created_response_def created_info_def

lemmas stage_defs =
  createCommentPost_def optional_parameters_def completion_handler_def fail_validation_def
  run_stages_def assemble_def handleUpload_def handleURL_def handleMentions_def
  handleSticker_def createContent_def extract_result_def complete_def build_form_def
  and_then_def upload_one_def upload_request_for_def check_upload_def promise_all_def
  push_attachment_def push_range_def settle_once_def

lemmas string_defs =
  lit_def buffer_base64_def utf8_code_point_def is_high_surrogate_def is_low_surrogate_def
  base64_digit_def base64_alphabet_def decimal.simps digit_char_def int_to_string_def
  indexOf_def

subsection \<open>Forms: appending to the two lists\<close>

lemma add_lists_Nil [simp]: "add_lists [] [] f = f"
  by (simp add: add_lists_def)

lemma add_lists_add_lists [simp]:
  "add_lists ds' rs' (add_lists ds rs f) = add_lists (ds @ ds') (rs @ rs') f"
  by (simp add: add_lists_def)

lemma attachment_list_add_lists [simp]:
  "attachment_list (input (add_lists ds rs f)) = attachment_list (input f) @ ds"
  by (simp add: add_lists_def)

lemma ranges_add_lists [simp]:
  "ranges (message (input (add_lists ds rs f))) = ranges (message (input f)) @ rs"
  by (simp add: add_lists_def)

lemma feedback_id_add_lists [simp]:
  "feedback_id (input (add_lists ds rs f)) = feedback_id (input f)"
  by (simp add: add_lists_def)

lemma push_attachment_add_lists: "push_attachment f d = add_lists [d] [] f"
  by (simp add: push_attachment_def add_lists_def)

lemma push_range_add_lists: "push_range f r = add_lists [] [r] f"
  by (simp add: push_range_def add_lists_def)

lemma foldl_push_attachment: "foldl push_attachment f ds = add_lists ds [] f"
  by (induction ds arbitrary: f) (simp_all add: push_attachment_add_lists)

lemma handleURL_eq:
  "handleURL m f = add_lists (if typeof (url m) = ''string'' then [Link (url m)] else []) [] f"
  by (simp add: handleURL_def push_attachment_add_lists)

lemma handleSticker_eq:
  "handleSticker m f =
     add_lists (if truthy (sticker m) then [Media (JStr (js_String (sticker m)))] else []) [] f"
  by (simp add: handleSticker_def push_attachment_add_lists)

lemma mentions_loop_shape:
  "mentions_loop b ms f = Inr f' \<Longrightarrow> \<exists>rs. f' = add_lists [] rs f"
proof (induction ms arbitrary: f)
  case Nil
  then have "f' = add_lists [] [] f" by simp
  then show ?case by blast
next
  case (Cons item items)
  show ?case
  proof (cases "mentions_loop b items f = Inr f'")
    case True
    then show ?thesis using Cons.IH by blast
  next
    case False
    with Cons.prems obtain r where "mentions_loop b items (push_range f r) = Inr f'"
      by (auto simp: Let_def split: jsval.splits if_splits option.splits)
    from Cons.IH [OF this] obtain rs where "f' = add_lists [] rs (push_range f r)" by blast
    then show ?thesis by (auto simp: push_range_add_lists)
  qed
qed

lemma mentions_loop_fails:
  "mentions_loop b ms f = Inl x \<Longrightarrow> x = TypeErrorObject \<and> b = None"
  by (induction ms arbitrary: f)
     (auto simp: Let_def split: jsval.splits if_splits option.splits)

lemma handleMentions_shape:
  assumes "handleMentions m f = Inr f'"
  shows "\<exists>rs. f' = add_lists [] rs f"
proof (cases "mentions m")
  case None
  with assms have "f' = add_lists [] [] f" by (simp add: handleMentions_def)
  then show ?thesis by blast
next
  case (Some ms)
  with assms show ?thesis by (auto simp: handleMentions_def dest: mentions_loop_shape)
qed

lemma handleMentions_fails:
  "handleMentions m f = Inl x \<Longrightarrow> x = TypeErrorObject \<and> body m = None"
  by (auto simp: handleMentions_def split: option.splits dest: mentions_loop_fails)

lemma handleUpload_shape:
  assumes "snd (handleUpload e c m f) = Inr f'"
  shows "\<exists>ds. f' = add_lists ds [] f"
proof (cases "attachments m")
  case None
  with assms have "f' = add_lists [] [] f" by (simp add: handleUpload_def)
  then show ?thesis by blast
next
  case (Some items)
  show ?thesis
  proof (cases items)
    case Nil
    with Some assms have "f' = add_lists [] [] f" by (simp add: handleUpload_def)
    then show ?thesis by blast
  next
    case (Cons x xs)
    with Some assms show ?thesis
      by (auto simp: handleUpload_def and_then_def foldl_push_attachment
          split: prod.splits sum.splits)
  qed
qed

lemma assemble_shape:
  assumes "snd (assemble e c m f) = Inr f'"
  shows "\<exists>ds rs. f' = add_lists ds rs f"
proof -
  from assms obtain f1 f2 where
    1: "snd (handleUpload e c m f) = Inr f1" and
    2: "handleMentions m (handleURL m f1) = Inr f2" and
    3: "f' = handleSticker m f2"
    by (auto simp: assemble_def and_then_def split: prod.splits sum.splits)
  from handleUpload_shape [OF 1] obtain d1 where "f1 = add_lists d1 [] f" by blast
  moreover from handleMentions_shape [OF 2] obtain rs where
    "f2 = add_lists [] rs (handleURL m f1)" by blast
  ultimately show ?thesis using 3 by (auto simp: handleURL_eq handleSticker_eq)
qed

subsection \<open>The events of a call\<close>

lemma string_arg_None: "string_arg a = None \<longleftrightarrow> typeof_arg a \<noteq> ''string''"
  by (cases a rule: string_arg.cases) simp_all

lemma string_arg_Some: "string_arg a = Some p \<longleftrightarrow> a = Value (JStr p)"
  by (cases a rule: string_arg.cases) auto

lemma normalize_None: "normalize msg = None \<Longrightarrow> typeof_msg msg = ''object'' \<Longrightarrow> msg = MNull"
  by (cases msg) simp_all

lemma normalize_Some:
  "normalize msg = Some m \<Longrightarrow> typeof_msg msg = ''string'' \<or> typeof_msg msg = ''object''"
  by (cases msg) simp_all

lemma truthy_validation_error [simp]: "truthy_err (validation_error m)"
  by (simp add: validation_error_def)

lemma fail_validation_events:
  "during_call (fail_validation h m) = [CallbackCall (Failure (validation_error m))]"
  "after_call (fail_validation h m) = []"
  by (simp_all add: fail_validation_def validation_error_def split: prod.splits)

lemma fail_validation_promise:
  "returnPromise (fail_validation h m) = snd (invoke h (Failure (validation_error m)))"
  by (simp add: fail_validation_def validation_error_def split: prod.splits)

lemma events_of_requests [simp]:
  "concat (map mutation_of (map UploadRequest reqs)) = []"
  "concat (map callback_of (map UploadRequest reqs)) = []"
  "concat (map upload_of (map UploadRequest reqs)) = reqs"
  "concat (map mutation_of (map MutationRequest fs)) = fs"
  "concat (map callback_of (map MutationRequest fs)) = []"
  "concat (map upload_of (map MutationRequest fs)) = []"
  by (induction reqs, simp_all, induction fs, simp_all)

lemma events_of_complete [simp]:
  "concat (map mutation_of (fst (complete h r))) = []"
  "concat (map upload_of (fst (complete h r))) = []"
  by (simp_all add: complete_def split: sum.splits prod.splits cb_result.splits)

text \<open>
  The call in its three cases: a failed validation, the synchronous TypeError for
  \<^verbatim>\<open>null\<close>, and the run of the stages.
\<close>

lemma createCommentPost_invalid:
  assumes "typeof_msg msg \<noteq> ''string''" and "typeof_msg msg \<noteq> ''object''"
  shows "createCommentPost e c msg postID replyCommentID callback =
    fail_validation (completion_handler (fst (optional_parameters replyCommentID callback)))
      ''Message must be a string or an object.''"
  using assms by (simp add: createCommentPost_def split: prod.splits)

lemma createCommentPost_bad_postID:
  assumes "typeof_msg msg = ''string'' \<or> typeof_msg msg = ''object''"
    and "string_arg postID = None"
  shows "createCommentPost e c msg postID replyCommentID callback =
    fail_validation (completion_handler (fst (optional_parameters replyCommentID callback)))
      ''postID must be a string.''"
  using assms by (auto simp: createCommentPost_def split: prod.splits)

lemma createCommentPost_null:
  assumes "string_arg postID = Some p"
  shows "createCommentPost e c MNull postID replyCommentID callback =
    \<lparr>returned = ThrowsSync TypeErrorObject, during_call = [], after_call = [],
     returnPromise = Pending\<rparr>"
  using assms by (simp add: createCommentPost_def split: prod.splits)

lemma createCommentPost_runs:
  assumes "normalize msg = Some m" and "string_arg postID = Some p"
  shows "createCommentPost e c msg postID replyCommentID callback =
    (case run_stages e c m
            (build_form e c m p (snd (optional_parameters replyCommentID callback))) of
       (reqs, submitted, r) \<Rightarrow>
         \<lparr>returned = ReturnsPromise,
          during_call = map UploadRequest reqs,
          after_call = map MutationRequest submitted
            @ fst (complete (completion_handler
                     (fst (optional_parameters replyCommentID callback))) r),
          returnPromise =
            snd (complete (completion_handler
                   (fst (optional_parameters replyCommentID callback))) r)\<rparr>)"
  using assms normalize_Some [OF assms(1)]
  by (auto simp: createCommentPost_def split: prod.splits)

lemma createCommentPost_cases:
  obtains
    (invalid) "typeof_msg msg \<noteq> ''string''" "typeof_msg msg \<noteq> ''object''"
  | (bad_postID) "typeof_msg msg = ''string'' \<or> typeof_msg msg = ''object''"
      "string_arg postID = None"
  | (null) p where "msg = MNull" "string_arg postID = Some p"
  | (runs) m p where "normalize msg = Some m" "string_arg postID = Some p"
proof (cases "typeof_msg msg = ''string'' \<or> typeof_msg msg = ''object''")
  case False
  then show ?thesis using invalid by blast
next
  case ok: True
  show ?thesis
  proof (cases "string_arg postID")
    case None
    with ok show ?thesis using bad_postID by blast
  next
    case (Some p)
    show ?thesis
    proof (cases "normalize msg")
      case None
      with ok have "msg = MNull" by (cases msg) auto
      with Some show ?thesis using null by blast
    next
      case (Some m)
      with \<open>string_arg postID = Some p\<close> show ?thesis using runs by blast
    qed
  qed
qed

lemma mutation_requests_runs:
  assumes "normalize msg = Some m" and "string_arg postID = Some p"
  shows "mutation_requests (createCommentPost e c msg postID replyCommentID callback) =
    (case snd (assemble e c m
            (build_form e c m p (snd (optional_parameters replyCommentID callback)))) of
       Inl x \<Rightarrow> [] | Inr f3 \<Rightarrow> [f3])"
  by (simp add: createCommentPost_runs [OF assms] mutation_requests_def run_stages_def
      split: prod.splits sum.splits)

lemma mutation_requests_not_runs:
  assumes "normalize msg = None \<or> string_arg postID = None"
  shows "mutation_requests (createCommentPost e c msg postID replyCommentID callback) = []"
proof (cases rule: createCommentPost_cases [where msg = msg and postID = postID])
  case invalid
  then show ?thesis
    by (simp add: createCommentPost_invalid mutation_requests_def fail_validation_events)
next
  case bad_postID
  then show ?thesis
    by (simp add: createCommentPost_bad_postID mutation_requests_def fail_validation_events)
next
  case (null p)
  then show ?thesis by (simp add: createCommentPost_null mutation_requests_def)
next
  case (runs m p)
  with assms show ?thesis by simp
qed

subsection \<open>Validation\<close>

text \<open>
  Claim C7. When \<^verbatim>\<open>postID\<close> is not of type string, whatever the message, the call
  fails with a validation error handed to the completion callback before the call
  returns, and that invocation is all the call does: no upload request and no mutation
  request is issued, then or later. The error is the one for the message when the
  message is neither a string nor an object, and the one for \<^verbatim>\<open>postID\<close> otherwise.
  Without a caller's callback the promise is rejected with that error.
\<close>

theorem postID_not_string_fails_validation:
  assumes "typeof_arg postID \<noteq> ''string''"
  shows "during_call (createCommentPost e c msg postID replyCommentID callback) =
      [CallbackCall (Failure (validation_error
         (if typeof_msg msg = ''string'' \<or> typeof_msg msg = ''object''
          then ''postID must be a string.''
          else ''Message must be a string or an object.'')))] \<and>
    after_call (createCommentPost e c msg postID replyCommentID callback) = [] \<and>
    upload_requests (createCommentPost e c msg postID replyCommentID callback) = [] \<and>
    mutation_requests (createCommentPost e c msg postID replyCommentID callback) = [] \<and>
    returnPromise (createCommentPost e c msg postID replyCommentID callback) =
      (case fst (optional_parameters replyCommentID callback) of
         None \<Rightarrow>
           Rejected (validation_error
             (if typeof_msg msg = ''string'' \<or> typeof_msg msg = ''object''
              then ''postID must be a string.''
              else ''Message must be a string or an object.''))
       | Some g \<Rightarrow> Pending)"
proof -
  from assms have "string_arg postID = None" by (simp add: string_arg_None)
  then show ?thesis
    by (cases rule: createCommentPost_cases [where msg = msg and postID = postID])
       (auto simp: createCommentPost_invalid createCommentPost_bad_postID
          fail_validation_events fail_validation_promise upload_requests_def
          mutation_requests_def completion_handler_def split: option.splits)
qed

theorem postID_not_string_fails_validation_witness:
  "typeof_arg (Value (JNum 5)) \<noteq> ''string'' \<and>
   during_call (createCommentPost example_env example_ctx (MString (lit ''hi''))
      (Value (JNum 5)) (Value JUndefined) None) =
     [CallbackCall (Failure (validation_error ''postID must be a string.''))] \<and>
   after_call (createCommentPost example_env example_ctx (MString (lit ''hi''))
      (Value (JNum 5)) (Value JUndefined) None) = [] \<and>
   returnPromise (createCommentPost example_env example_ctx (MString (lit ''hi''))
      (Value (JNum 5)) (Value JUndefined) None) =
     Rejected (validation_error ''postID must be a string.'')"
proof -
  have 1: "typeof_arg (Value (JNum 5)) \<noteq> ''string''" by simp
  from postID_not_string_fails_validation
    [OF 1, of example_env example_ctx "MString (lit ''hi'')" "Value JUndefined" None]
  show ?thesis by (simp add: optional_parameters_def)
qed

text \<open>
  Claim C8. For a string \<open>s\<close> and a string \<^verbatim>\<open>postID\<close>, the call with \<open>s\<close> and the call
  with the object \<^verbatim>\<open>{ body: s }\<close> do the same: the same requests with the same forms,
  the same callback invocations, the same return and the same state of the promise.
\<close>

theorem string_message_same_as_body_object:
  "createCommentPost e c (MString s) (Value (JStr p)) replyCommentID callback =
   createCommentPost e c
     (MObject \<lparr>body = Some s, attachments = None, mentions = None,
               url = JUndefined, sticker = JUndefined\<rparr>)
     (Value (JStr p)) replyCommentID callback"
  by (simp add: createCommentPost_def)

text \<open>
  Claim C10. With a string \<^verbatim>\<open>postID\<close>, a \<^verbatim>\<open>null\<close> message passes the validation and
  the call throws a TypeError synchronously: the callback is never invoked, no request
  is made and the promise stays pending. And a falsy sticker, such as \<open>0\<close>, leaves the
  form as it is: no sticker descriptor is appended.
\<close>

theorem null_message_throws_and_falsy_sticker_ignored:
  assumes "typeof_arg postID = ''string''" and "\<not> truthy (sticker m)"
  shows "createCommentPost e c MNull postID replyCommentID callback =
      \<lparr>returned = ThrowsSync TypeErrorObject, during_call = [], after_call = [],
       returnPromise = Pending\<rparr> \<and>
    handleSticker m f = f"
proof -
  from assms(1) obtain p where "string_arg postID = Some p"
    using string_arg_None [of postID] by (cases "string_arg postID") auto
  then show ?thesis using assms(2)
    by (simp add: createCommentPost_null handleSticker_def)
qed

theorem null_message_throws_and_falsy_sticker_ignored_witness:
  "typeof_arg (Value (JStr (lit ''1''))) = ''string'' \<and>
   \<not> truthy (sticker (hello_message\<lparr>sticker := JNum 0\<rparr>)) \<and>
   returned (createCommentPost example_env example_ctx MNull (Value (JStr (lit ''1'')))
      (Value JUndefined) None) = ThrowsSync TypeErrorObject \<and>
   callback_calls (createCommentPost example_env example_ctx MNull (Value (JStr (lit ''1'')))
      (Value JUndefined) None) = [] \<and>
   handleSticker (hello_message\<lparr>sticker := JNum 0\<rparr>) example_form = example_form"
  using null_message_throws_and_falsy_sticker_ignored
    [of "Value (JStr (lit ''1''))" "hello_message\<lparr>sticker := JNum 0\<rparr>"
        example_env example_ctx "Value JUndefined" None example_form]
  by (simp add: callback_calls_def)

subsection \<open>The feedback identifier\<close>

text \<open>
  The encoders on known values: the test vectors of RFC 4648, and one code point for each
  length of UTF-8 (the last two are a surrogate pair and a lone surrogate).
\<close>

lemma base64_test_vectors:
  "base64 (utf8_encode (lit [])) = []"
  "base64 (utf8_encode (lit ''f'')) = ''Zg==''"
  "base64 (utf8_encode (lit ''fo'')) = ''Zm8=''"
  "base64 (utf8_encode (lit ''foo'')) = ''Zm9v''"
  "base64 (utf8_encode (lit ''foob'')) = ''Zm9vYg==''"
  "base64 (utf8_encode (lit ''fooba'')) = ''Zm9vYmE=''"
  "base64 (utf8_encode (lit ''foobar'')) = ''Zm9vYmFy''"
  by (simp_all add: string_defs)

lemma utf8_test_vectors:
  "utf8_encode [0x41] = [0x41]"
  "utf8_encode [0xE9] = [0xC3, 0xA9]"
  "utf8_encode [0x20AC] = [0xE2, 0x82, 0xAC]"
  "utf8_encode [0xD83D, 0xDE00] = [0xF0, 0x9F, 0x98, 0x80]"
  "utf8_encode [0xD83D, 0x41] = [0xEF, 0xBF, 0xBD, 0x41]"
  by (simp_all add: string_defs)

text \<open>\<^verbatim>\<open>String\<close> on numbers, up to the two ends of the range.\<close>

lemma js_String_numbers:
  "js_String (JNum 0) = lit ''0''"
  "js_String (JNum 369) = lit ''369''"
  "js_String (JNum (- 5)) = lit ''-5''"
  "js_String (JNum 9007199254740991) = lit ''9007199254740991''"
  "js_String (JNum (- 9007199254740992)) = lit ''-9007199254740992''"
  "js_String (JArr [JNum 1, JNull, JStr (lit ''a'')]) = lit ''1,,a''"
  by (simp_all add: string_defs)

lemma utf8_encode_ascii_Cons:
  assumes "unat u < 0x80"
  shows "utf8_encode (u # us) = of_nat (unat u) # utf8_encode us"
  using assms
  by (cases us)
     (simp_all add: is_high_surrogate_def is_low_surrogate_def utf8_code_point_def)

lemma utf8_encode_ascii_append:
  "\<forall>u \<in> set a. unat u < 0x80 \<Longrightarrow>
   utf8_encode (a @ p) = map (\<lambda>u. of_nat (unat u)) a @ utf8_encode p"
  by (induction a) (simp_all add: utf8_encode_ascii_Cons del: utf8_encode.simps)

lemma lit_append: "lit (a @ b) = lit a @ lit b"
  by (simp add: lit_def)

lemma utf8_encode_feedback:
  "utf8_encode (lit ''feedback:'' @ p) =
     [0x66, 0x65, 0x65, 0x64, 0x62, 0x61, 0x63, 0x6B, 0x3A] @ utf8_encode p"
proof -
  have "\<forall>u \<in> set (lit ''feedback:''). unat u < 0x80" by (simp add: lit_def)
  from utf8_encode_ascii_append [OF this, of p] show ?thesis by (simp add: lit_def)
qed

text \<open>
  \<^verbatim>\<open>'feedback:'\<close> is nine bytes, so the identifier is \<^verbatim>\<open>ZmVlZGJhY2s6\<close> followed by the
  base64 encoding of \<^verbatim>\<open>postID\<close>.
\<close>

lemma feedback_id_prefix:
  "buffer_base64 (lit ''feedback:'' @ p) = lit ''ZmVlZGJhY2s6'' @ buffer_base64 p"
proof -
  have "base64 ([0x66, 0x65, 0x65, 0x64, 0x62, 0x61, 0x63, 0x6B, 0x3A] @ utf8_encode p)
      = ''ZmVlZGJhY2s6'' @ base64 (utf8_encode p)"
    by (simp add: base64_digit_def base64_alphabet_def)
  then show ?thesis
    by (simp only: buffer_base64_def utf8_encode_feedback lit_append)
qed
text \<open>
  Claim C9. For a string \<^verbatim>\<open>postID\<close>, the \<^verbatim>\<open>feedback_id\<close> of the form is the base64
  encoding of \<^verbatim>\<open>'feedback:' + postID\<close>: in the form as it is built, and in every form
  the call submits to the mutation endpoint.
\<close>

theorem feedback_id_is_base64_of_postID:
  "feedback_id (input (build_form e c m p v)) = buffer_base64 (lit ''feedback:'' @ p) \<and>
   map (\<lambda>f. feedback_id (input f))
     (mutation_requests (createCommentPost e c msg (Value (JStr p)) replyCommentID callback))
   = map (\<lambda>f. buffer_base64 (lit ''feedback:'' @ p))
     (mutation_requests (createCommentPost e c msg (Value (JStr p)) replyCommentID callback))"
proof
  show "feedback_id (input (build_form e c m p v)) = buffer_base64 (lit ''feedback:'' @ p)"
    by (simp add: build_form_def)
next
  let ?out = "createCommentPost e c msg (Value (JStr p)) replyCommentID callback"
  let ?v = "snd (optional_parameters replyCommentID callback)"
  show "map (\<lambda>f. feedback_id (input f)) (mutation_requests ?out)
      = map (\<lambda>f. buffer_base64 (lit ''feedback:'' @ p)) (mutation_requests ?out)"
  proof (cases "normalize msg")
    case None
    then show ?thesis by (simp add: mutation_requests_not_runs)
  next
    case (Some m')
    have req: "mutation_requests ?out =
      (case snd (assemble e c m' (build_form e c m' p ?v)) of Inl x \<Rightarrow> [] | Inr f3 \<Rightarrow> [f3])"
      by (rule mutation_requests_runs [OF Some]) simp
    show ?thesis
    proof (cases "snd (assemble e c m' (build_form e c m' p ?v))")
      case (Inl x)
      with req show ?thesis by simp
    next
      case (Inr f3)
      from assemble_shape [OF this] obtain ds rs where
        "f3 = add_lists ds rs (build_form e c m' p ?v)" by blast
      with req Inr show ?thesis by (simp add: build_form_def)
    qed
  qed
qed

theorem feedback_id_is_base64_of_postID_witness:
  "map (\<lambda>f. feedback_id (input f))
     (mutation_requests (createCommentPost example_env example_ctx (MString (lit ''hi''))
        (Value (JStr (lit ''1''))) (Value JUndefined) None))
   = [lit ''ZmVlZGJhY2s6MQ=='']"
proof -
  have "mutation_requests (createCommentPost example_env example_ctx (MString (lit ''hi''))
        (Value (JStr (lit ''1''))) (Value JUndefined) None)
      = [build_form example_env example_ctx
           \<lparr>body = Some (lit ''hi''), attachments = Some [], mentions = Some [],
            url = JUndefined, sticker = JUndefined\<rparr> (lit ''1'') JUndefined]"
    by (simp add: mutation_requests_def stage_defs example_defs)
  moreover have "buffer_base64 (lit ''feedback:'' @ lit ''1'') = lit ''ZmVlZGJhY2s6MQ==''"
    by (simp add: string_defs)
  ultimately show ?thesis
    using feedback_id_is_base64_of_postID
      [of example_env example_ctx hello_message "lit ''1''" JNull "MString (lit ''hi'')"
          "Value JUndefined" None]
    by simp
qed

subsection \<open>Errors of the mutation\<close>

lemma get_truthy_object:
  "get res k = Inr v \<Longrightarrow> truthy v \<Longrightarrow> truthy res"
  by (cases res) auto

lemma createContent_errors:
  assumes "post e f = Inr res" and "get res ''errors'' = Inr errors" and "truthy errors"
  shows "createContent e f = Inl (Val res)"
  using assms by (simp add: createContent_def and_then_def)

text \<open>
  Claim C3, as amended. When the response to the mutation carries a truthy
  \<^verbatim>\<open>errors\<close> property (a non-empty error collection is one), the call fails: the callback
  is invoked exactly once, and the error it receives is the whole response object as it
  is, not the error collection in it. Without a caller's callback the promise is rejected
  with the same response.
\<close>

theorem mutation_errors_fail_with_response:
  assumes "f3 \<in> set (mutation_requests
            (createCommentPost e c msg postID replyCommentID callback))"
    and "post e f3 = Inr res" and "get res ''errors'' = Inr errors" and "truthy errors"
  shows "callback_calls (createCommentPost e c msg postID replyCommentID callback)
      = [Failure (Val res)] \<and>
    returnPromise (createCommentPost e c msg postID replyCommentID callback)
      = (case fst (optional_parameters replyCommentID callback) of
           None \<Rightarrow> Rejected (Val res)
         | Some g \<Rightarrow> Pending)"
proof -
  let ?v = "snd (optional_parameters replyCommentID callback)"
  let ?h = "completion_handler (fst (optional_parameters replyCommentID callback))"
  from assms(1) obtain m p where
    m: "normalize msg = Some m" and p: "string_arg postID = Some p"
    using mutation_requests_not_runs [of msg postID e c replyCommentID callback]
    by (cases "normalize msg"; cases "string_arg postID") auto
  from assms(1) have asm: "snd (assemble e c m (build_form e c m p ?v)) = Inr f3"
    by (simp add: mutation_requests_runs [OF m p] split: sum.splits)
  then obtain reqs where "assemble e c m (build_form e c m p ?v) = (reqs, Inr f3)"
    by (cases "assemble e c m (build_form e c m p ?v)") simp
  then have run: "run_stages e c m (build_form e c m p ?v) = (reqs, [f3], Inl (Val res))"
    by (simp add: run_stages_def createContent_errors [OF assms(2-4)])
  have "truthy res" using assms(3,4) by (rule get_truthy_object)
  then show ?thesis
    by (simp add: createCommentPost_runs [OF m p] run callback_calls_def complete_def
        completion_handler_def split: option.splits)
qed

theorem mutation_errors_fail_with_response_witness:
  "post error_env example_form = Inr error_response \<and>
   get error_response ''errors'' = Inr error_collection \<and> truthy error_collection \<and>
   callback_calls (createCommentPost error_env example_ctx (MString (lit ''hi''))
      (Value (JStr (lit ''1''))) (Value JUndefined) None) = [Failure (Val error_response)] \<and>
   returnPromise (createCommentPost error_env example_ctx (MString (lit ''hi''))
      (Value (JStr (lit ''1''))) (Value JUndefined) None) = Rejected (Val error_response)"
proof -
  let ?f = "build_form error_env example_ctx
           \<lparr>body = Some (lit ''hi''), attachments = Some [], mentions = Some [],
            url = JUndefined, sticker = JUndefined\<rparr> (lit ''1'') JUndefined"
  have 1: "?f \<in> set (mutation_requests (createCommentPost error_env example_ctx
      (MString (lit ''hi'')) (Value (JStr (lit ''1''))) (Value JUndefined) None))"
    by (simp add: mutation_requests_def stage_defs example_defs)
  have 2: "post error_env ?f = Inr error_response"
    and 5: "post error_env example_form = Inr error_response"
    by (simp_all add: error_env_def)
  have 3: "get error_response ''errors'' = Inr error_collection"
    by (simp add: error_response_def)
  have 4: "truthy error_collection" by (simp add: error_collection_def)
  from mutation_errors_fail_with_response [OF 1 2 3 4] 5 3 4 show ?thesis
    by (simp add: optional_parameters_def)
qed

text \<open>
  The claim as the specification states it fails: the error collection itself is not what
  the callback receives.
\<close>

theorem error_collection_not_delivered:
  "get error_response ''errors'' = Inr error_collection \<and>
   callback_calls (createCommentPost error_env example_ctx (MString (lit ''hi''))
      (Value (JStr (lit ''1''))) (Value JUndefined) None) \<noteq> [Failure (Val error_collection)]"
  by (simp add: callback_calls_def stage_defs example_defs)

subsection \<open>\<^verbatim>\<open>indexOf\<close> finds the first occurrence\<close>

lemma starts_with_iff: "starts_with s t \<longleftrightarrow> occurs_at s t 0"
  by (induction s t rule: starts_with.induct) (auto simp: occurs_at_def)

lemma occurs_at_Nil: "occurs_at [] t j \<longleftrightarrow> j = 0 \<and> t = []"
  by (auto simp: occurs_at_def)

lemma occurs_at_Cons_Suc: "occurs_at (c # s) t (Suc j) \<longleftrightarrow> occurs_at s t j"
  by (simp add: occurs_at_def)

lemma occurs_at_drop:
  "n \<le> length s \<Longrightarrow> occurs_at (drop n s) t j \<longleftrightarrow> occurs_at s t (n + j)"
  by (auto simp: occurs_at_def add.commute)

lemma search_from_None: "search_from s t k = None \<Longrightarrow> \<not> occurs_at s t j"
proof (induction s arbitrary: k j)
  case Nil
  then show ?case by (simp add: occurs_at_Nil split: if_splits)
next
  case (Cons c s)
  then show ?case
    by (cases j) (auto simp: starts_with_iff occurs_at_Cons_Suc split: if_splits)
qed

lemma search_from_Some:
  "search_from s t k = Some r \<Longrightarrow>
   \<exists>j. r = k + j \<and> occurs_at s t j \<and> (\<forall>i<j. \<not> occurs_at s t i)"
proof (induction s arbitrary: k)
  case Nil
  then show ?case by (auto simp: occurs_at_Nil split: if_splits)
next
  case (Cons c s)
  show ?case
  proof (cases "starts_with (c # s) t")
    case True
    with Cons.prems show ?thesis by (auto simp: starts_with_iff)
  next
    case False
    with Cons.prems have "search_from s t (Suc k) = Some r" by simp
    from Cons.IH [OF this] obtain j where
      j: "r = Suc k + j" "occurs_at s t j" "\<forall>i<j. \<not> occurs_at s t i" by blast
    have "\<forall>i<Suc j. \<not> occurs_at (c # s) t i"
    proof (intro allI impI)
      fix i assume "i < Suc j"
      then show "\<not> occurs_at (c # s) t i"
        using False j(3) by (cases i) (auto simp: starts_with_iff occurs_at_Cons_Suc)
    qed
    with j show ?thesis
      by (intro exI [of _ "Suc j"]) (simp add: occurs_at_Cons_Suc)
  qed
qed

lemma search_start_le: "search_start s position \<le> length s"
  by (simp add: search_start_def)

lemma indexOf_not_found:
  "indexOf s t position < 0 \<longleftrightarrow>
     (\<forall>k. search_start s position \<le> k \<longrightarrow> \<not> occurs_at s t k)"
proof -
  let ?n = "search_start s position"
  show ?thesis
  proof (cases "search_from (drop ?n s) t ?n")
    case None
    have "\<not> occurs_at s t k" if "?n \<le> k" for k
    proof -
      from that obtain j where "k = ?n + j" using le_Suc_ex by blast
      with search_from_None [OF None, of j] show ?thesis
        by (simp add: occurs_at_drop search_start_le)
    qed
    with None show ?thesis by (simp add: indexOf_def search_start_def Let_def)
  next
    case (Some r)
    from search_from_Some [OF this] obtain j where
      "r = ?n + j" "occurs_at (drop ?n s) t j" by blast
    then have "?n \<le> r \<and> occurs_at s t r" by (simp add: occurs_at_drop search_start_le)
    with Some show ?thesis by (auto simp: indexOf_def search_start_def Let_def)
  qed
qed

lemma indexOf_found:
  "indexOf s t position = int k \<longleftrightarrow> first_occurrence s t position k"
proof -
  let ?n = "search_start s position"
  show ?thesis
  proof (cases "search_from (drop ?n s) t ?n")
    case None
    then have "indexOf s t position < 0" by (simp add: indexOf_def search_start_def Let_def)
    moreover from this have "\<not> first_occurrence s t position k"
      unfolding indexOf_not_found by (auto simp: first_occurrence_def)
    ultimately show ?thesis by auto
  next
    case (Some r)
    then have r: "indexOf s t position = int r"
      by (simp add: indexOf_def search_start_def Let_def)
    from search_from_Some [OF Some] obtain j where
      j: "r = ?n + j" "occurs_at (drop ?n s) t j" "\<forall>i<j. \<not> occurs_at (drop ?n s) t i"
      by blast
    have first: "first_occurrence s t position r"
      unfolding first_occurrence_def
    proof (intro conjI allI impI)
      show "?n \<le> r" using j(1) by simp
      show "occurs_at s t r" using j(1,2) by (simp add: occurs_at_drop search_start_le)
    next
      fix i assume "i < r" "?n \<le> i"
      then obtain i' where "i = ?n + i'" "i' < j" using j(1) le_Suc_ex by fastforce
      with j(3) show "\<not> occurs_at s t i" by (simp add: occurs_at_drop search_start_le)
    qed
    have "k = r" if "first_occurrence s t position k"
      using that first unfolding first_occurrence_def by (meson linorder_neqE_nat)
    with r first show ?thesis by auto
  qed
qed

text \<open>For a non-empty tag the clamping of the position makes no difference.\<close>

lemma first_occurrence_nonempty:
  assumes "t \<noteq> []"
  shows "first_occurrence s t position k \<longleftrightarrow>
    position \<le> int k \<and> occurs_at s t k \<and>
    (\<forall>j<k. position \<le> int j \<longrightarrow> \<not> occurs_at s t j)"
proof -
  have *: "search_start s position \<le> j \<longleftrightarrow> position \<le> int j" if "occurs_at s t j" for j
  proof -
    from that assms have "j < length s" by (cases t) (auto simp: occurs_at_def)
    then show ?thesis by (auto simp: search_start_def)
  qed
  show ?thesis unfolding first_occurrence_def using * by blast
qed

text \<open>An empty tag is found wherever the search starts, with a range of length 0.\<close>

lemma indexOf_empty_tag: "indexOf s [] position = int (search_start s position)"
  unfolding indexOf_found by (simp add: first_occurrence_def occurs_at_def search_start_le)

subsection \<open>Mentions\<close>

lemma mentions_loop_concat:
  "mentions_loop (Some b) ms f = Inr (add_lists [] (concat (map (range_of b) ms)) f)"
proof (induction ms arbitrary: f)
  case Nil
  then show ?case by simp
next
  case (Cons item items)
  show ?case
    by (cases "tag item")
       (auto simp: Cons.IH range_of_def from_position_def Let_def push_range_add_lists)
qed

lemma range_of_found:
  assumes "tag item = JStr t" and "truthy (id' item)"
    and "first_occurrence b t (from_position item) k"
  shows "range_of b item =
    [\<lparr>entity_id = id' item, length' = int (length t), offset = int k\<rparr>]"
proof -
  from assms(3) have "indexOf b t (from_position item) = int k" by (simp add: indexOf_found)
  with assms(1,2) show ?thesis by (simp add: range_of_def)
qed

lemma range_of_skipped:
  assumes "(\<forall>t. tag item \<noteq> JStr t) \<or> \<not> truthy (id' item) \<or>
    (\<exists>t. tag item = JStr t \<and>
      (\<forall>k. search_start b (from_position item) \<le> k \<longrightarrow> \<not> occurs_at b t k))"
  shows "range_of b item = []"
proof (cases "tag item")
  case (JStr t)
  show ?thesis
  proof (cases "truthy (id' item)")
    case True
    with assms JStr have "indexOf b t (from_position item) < 0"
      by (simp add: indexOf_not_found)
    with JStr show ?thesis by (simp add: range_of_def)
  next
    case False
    with JStr show ?thesis by (simp add: range_of_def)
  qed
qed (simp_all add: range_of_def)

text \<open>
  The message without a body: the first mention with a string tag and a truthy id makes
  \<^verbatim>\<open>msg.body.indexOf\<close> raise a TypeError, which rejects the chain.
\<close>

lemma mentions_loop_no_body:
  "mentions_loop None ms f =
     (if \<exists>item \<in> set ms. typeof (tag item) = ''string'' \<and> truthy (id' item)
      then Inl TypeErrorObject else Inr f)"
proof (induction ms)
  case Nil
  then show ?case by simp
next
  case (Cons item items)
  then show ?case by (cases "tag item") auto
qed

text \<open>
  Mentions of a message with a body \<open>b\<close>: \<^verbatim>\<open>handleMentions\<close> does not fail, and it
  appends to the ranges of the form what each mention yields, in the order of the
  mentions. A mention whose tag is a non-empty string \<open>t\<close>, whose id is truthy, and whose
  tag occurs in \<open>b\<close> at or after \<^verbatim>\<open>fromIndex\<close> (0 when absent) yields the one range with
  its id, the length of \<open>t\<close>, and the position \<open>k\<close> of the first such occurrence. A mention
  whose tag is not a string, or whose id is falsy, or whose tag occurs nowhere from the
  start of the search on, yields nothing.
\<close>

theorem mentions_append_ranges_in_order:
  assumes "body m = Some b" and "mentions m = Some ms"
  shows "\<exists>rss. handleMentions m f = Inr (add_lists [] (concat rss) f) \<and>
     list_all2 (mention_yields b) ms rss"
proof (intro exI [of _ "map (range_of b) ms"] conjI)
  show "handleMentions m f = Inr (add_lists [] (concat (map (range_of b) ms)) f)"
    using assms by (simp add: handleMentions_def mentions_loop_concat)
  have "mention_yields b item (range_of b item)" for item
    unfolding mention_yields_def
  proof (intro conjI allI impI)
    fix t k
    assume found: "tag item = JStr t \<and> t \<noteq> [] \<and> truthy (id' item) \<and>
      from_position item \<le> int k \<and> occurs_at b t k \<and>
      (\<forall>j<k. from_position item \<le> int j \<longrightarrow> \<not> occurs_at b t j)"
    then have "first_occurrence b t (from_position item) k"
      by (simp add: first_occurrence_nonempty)
    with found show "range_of b item =
        [\<lparr>entity_id = id' item, length' = int (length t), offset = int k\<rparr>]"
      by (intro range_of_found) simp_all
  next
    assume "(\<forall>t. tag item \<noteq> JStr t) \<or> \<not> truthy (id' item) \<or>
      (\<exists>t. tag item = JStr t \<and>
        (\<forall>k. search_start b (from_position item) \<le> k \<longrightarrow> \<not> occurs_at b t k))"
    then show "range_of b item = []" by (rule range_of_skipped)
  qed
  then show "list_all2 (mention_yields b) ms (map (range_of b) ms)"
    by (simp add: list_all2_conv_all_nth)
qed

text \<open>
  The example of the specification: in \<^verbatim>\<open>hello world\<close> the mention of \<^verbatim>\<open>world\<close> for
  entity 42 yields the range of length 5 at offset 6, and the mention of \<^verbatim>\<open>moon\<close>,
  which the body does not contain, yields nothing.
\<close>

theorem mentions_append_ranges_in_order_witness:
  "body hello_message = Some (lit ''hello world'') \<and>
   mentions hello_message = Some [world_mention, moon_mention] \<and>
   handleMentions hello_message example_form =
     Inr (add_lists []
            [\<lparr>entity_id = JStr (lit ''42''), length' = 5, offset = 6\<rparr>] example_form)"
proof -
  have 1: "body hello_message = Some (lit ''hello world'')"
    and 2: "mentions hello_message = Some [world_mention, moon_mention]"
    by (simp_all add: hello_message_def)
  from mentions_append_ranges_in_order [OF 1 2, of example_form] obtain r0 r1 where
    h: "handleMentions hello_message example_form
          = Inr (add_lists [] (concat [r0, r1]) example_form)"
    and y0: "mention_yields (lit ''hello world'') world_mention r0"
    and y1: "mention_yields (lit ''hello world'') moon_mention r1"
    by (auto simp: list_all2_Cons1)
  have world: "occurs_at (lit ''hello world'') (lit ''world'') 6"
    by (simp add: occurs_at_def lit_def)
  have before: "\<not> occurs_at (lit ''hello world'') (lit ''world'') j" if "j < 6" for j
  proof -
    from that have "j \<in> {0, 1, 2, 3, 4, 5}" by auto
    then show ?thesis by (auto simp: occurs_at_def lit_def)
  qed
  have moon: "\<not> occurs_at (lit ''hello world'') (lit ''moon'') k" for k
  proof
    assume a: "occurs_at (lit ''hello world'') (lit ''moon'') k"
    then have "k \<le> 7" by (simp add: occurs_at_def lit_def)
    then have "k \<in> {0, 1, 2, 3, 4, 5, 6, 7}" by auto
    with a show False by (auto simp: occurs_at_def lit_def)
  qed
  have w: "tag world_mention = JStr (lit ''world'')" "lit ''world'' \<noteq> []"
    "truthy (id' world_mention)" "from_position world_mention \<le> int 6"
    "id' world_mention = JStr (lit ''42'')" "int (length (lit ''world'')) = 5"
    by (simp_all add: world_mention_def from_position_def lit_def)
  from y0 have "tag world_mention = JStr (lit ''world'') \<and> lit ''world'' \<noteq> [] \<and>
      truthy (id' world_mention) \<and> from_position world_mention \<le> int 6 \<and>
      occurs_at (lit ''hello world'') (lit ''world'') 6 \<and>
      (\<forall>j<6. from_position world_mention \<le> int j \<longrightarrow>
         \<not> occurs_at (lit ''hello world'') (lit ''world'') j)
    \<longrightarrow> r0 = [\<lparr>entity_id = id' world_mention, length' = int (length (lit ''world'')),
               offset = int 6\<rparr>]"
    unfolding mention_yields_def by blast
  with w world before have r0: "r0 = [\<lparr>entity_id = JStr (lit ''42''), length' = 5, offset = 6\<rparr>]"
    by simp
  have "tag moon_mention = JStr (lit ''moon'')" by (simp add: moon_mention_def)
  with y1 moon have r1: "r1 = []" unfolding mention_yields_def by blast
  from h r0 r1 1 2 show ?thesis by simp
qed

text \<open>
  Claim C6. A mention whose tag is not found in the body text produces no range and does
  not fail the pipeline. The code breaks this on an object message that has no
  \<^verbatim>\<open>body\<close>: the text of the form defaults to the empty string, in which the tag
  \<^verbatim>\<open>world\<close> is not found, but \<^verbatim>\<open>handleMentions\<close> searches \<^verbatim>\<open>msg.body\<close> itself and raises a
  TypeError; the call fails with it and nothing is submitted.
\<close>

theorem mention_without_body_fails_pipeline:
  "text' (message (input (build_form example_env example_ctx bodyless_message (lit ''1'')
      JUndefined))) = [] \<and>
   handleMentions bodyless_message example_form = Inl TypeErrorObject \<and>
   callback_calls (createCommentPost example_env example_ctx (MObject bodyless_message)
      (Value (JStr (lit ''1''))) (Value JUndefined) None) = [Failure TypeErrorObject] \<and>
   mutation_requests (createCommentPost example_env example_ctx (MObject bodyless_message)
      (Value (JStr (lit ''1''))) (Value JUndefined) None) = []"
  by (simp add: callback_calls_def mutation_requests_def stage_defs example_defs lit_def)

subsection \<open>Uploads\<close>

lemma map_uploads_all_readable:
  "\<forall>x \<in> set items. isReadableStream e x \<Longrightarrow>
   map_uploads e c i items =
     (map (upload_request_for c) items,
      Inr (map (\<lambda>(k, x). upload_one e c k x) (enumerate i items)))"
  by (induction items arbitrary: i) (simp_all add: and_then_def)

lemma map_uploads_unreadable:
  "\<exists>x \<in> set items. \<not> isReadableStream e x \<Longrightarrow>
   map_uploads e c i items =
     (map (upload_request_for c) (takeWhile (isReadableStream e) items),
      Inl (ErrorObject (lit ''Attachments must be a readable stream.'')))"
  by (induction items arbitrary: i) (auto simp: and_then_def)

lemma promise_all_fulfilled:
  assumes "map snd ps = map Inr vs"
  shows "promise_all ps = Inr vs"
proof -
  from assms have "earliest_rejection ps = None \<and> fulfilled_values ps = vs"
  proof (induction ps arbitrary: vs)
    case Nil
    then show ?case by simp
  next
    case (Cons p ps)
    then obtain v vs' where "vs = v # vs'" by (cases vs) auto
    with Cons show ?case by (cases p) auto
  qed
  then show ?thesis by (simp add: promise_all_def)
qed

lemma handleUpload_all_succeed:
  assumes "attachments m = Some items" and "length ids = length items"
    and "\<forall>k<length items. isReadableStream e (items ! k) \<and>
           snd (upload_one e c k (items ! k)) = Inr (Media (ids ! k))"
  shows "handleUpload e c m f =
     (map (upload_request_for c) items, Inr (add_lists (map Media ids) [] f))"
proof (cases items)
  case Nil
  with assms show ?thesis by (simp add: handleUpload_def)
next
  case (Cons x xs)
  from assms(3) have "\<forall>x \<in> set items. isReadableStream e x"
    by (auto simp: in_set_conv_nth)
  then have mu: "map_uploads e c 0 items =
     (map (upload_request_for c) items,
      Inr (map (\<lambda>(k, x). upload_one e c k x) (enumerate 0 items)))"
    by (rule map_uploads_all_readable)
  have "map snd (map (\<lambda>(k, x). upload_one e c k x) (enumerate 0 items))
      = map Inr (map Media ids)"
    using assms(2,3) by (intro nth_equalityI) (auto simp: nth_enumerate_eq)
  then have "promise_all (map (\<lambda>(k, x). upload_one e c k x) (enumerate 0 items))
      = Inr (map Media ids)"
    by (rule promise_all_fulfilled)
  with mu Cons assms(1) show ?thesis
    by (simp add: handleUpload_def and_then_def foldl_push_attachment)
qed

lemma handleMentions_raises:
  "handleMentions m f = Inl x \<longleftrightarrow> mentions_raise m \<and> x = TypeErrorObject"
proof (cases "body m")
  case None
  then show ?thesis
    by (cases "mentions m")
       (auto simp: handleMentions_def mentions_raise_def mentions_loop_no_body list_ex_iff)
next
  case (Some b)
  then show ?thesis
    by (cases "mentions m")
       (simp_all add: handleMentions_def mentions_raise_def mentions_loop_concat)
qed

text \<open>
  The order of the attachment list. When the message has \<open>N\<close> attachments that are all
  readable streams and whose uploads all succeed, with media identifiers \<open>ids\<close>, the \<open>N\<close>
  upload requests are issued in the order of the attachments. Unless \<^verbatim>\<open>handleMentions\<close>
  raises (no body, and a mention with a string tag and a truthy id), a form is assembled,
  and it has, after what its attachment list held before, the \<open>N\<close> media descriptors in
  that order, then the link descriptor if \<^verbatim>\<open>url\<close> is a string, then the sticker's media
  descriptor if \<^verbatim>\<open>sticker\<close> is truthy; its mention ranges are those it held before
  followed by the new ones. When \<^verbatim>\<open>handleMentions\<close> raises, no form is assembled.
\<close>

theorem assembled_attachments_in_order:
  assumes "attachments m = Some items" and "length ids = length items"
    and "\<forall>k<length items. isReadableStream e (items ! k) \<and>
           snd (upload_one e c k (items ! k)) = Inr (Media (ids ! k))"
  shows "fst (assemble e c m f) = map (upload_request_for c) items \<and>
     (if mentions_raise m then snd (assemble e c m f) = Inl TypeErrorObject
      else \<exists>f'. snd (assemble e c m f) = Inr f' \<and>
        attachment_list (input f') =
          attachment_list (input f) @ map Media ids
            @ (if typeof (url m) = ''string'' then [Link (url m)] else [])
            @ (if truthy (sticker m) then [Media (JStr (js_String (sticker m)))] else []) \<and>
        (\<exists>rs. ranges (message (input f')) = ranges (message (input f)) @ rs))"
proof -
  let ?f1 = "add_lists (map Media ids) [] f"
  have up: "handleUpload e c m f = (map (upload_request_for c) items, Inr ?f1)"
    using assms by (rule handleUpload_all_succeed)
  show ?thesis
  proof (cases "handleMentions m (handleURL m ?f1)")
    case (Inl x)
    then have "mentions_raise m" and "x = TypeErrorObject"
      by (simp_all add: handleMentions_raises)
    with up Inl show ?thesis by (simp add: assemble_def and_then_def)
  next
    case (Inr f2)
    have "\<not> mentions_raise m"
    proof
      assume "mentions_raise m"
      then have "handleMentions m (handleURL m ?f1) = Inl TypeErrorObject"
        by (simp add: handleMentions_raises)
      with Inr show False by simp
    qed
    moreover from handleMentions_shape [OF Inr] obtain rs where
      "f2 = add_lists [] rs (handleURL m ?f1)" by blast
    ultimately show ?thesis using up Inr
      by (simp add: assemble_def and_then_def handleURL_eq handleSticker_eq)
  qed
qed

theorem assembled_attachments_in_order_witness:
  "attachments photo_message = Some [stream_a, stream_b] \<and>
   isReadableStream example_env stream_a \<and> isReadableStream example_env stream_b \<and>
   snd (upload_one example_env example_ctx 0 stream_a) = Inr (Media (JNum 100)) \<and>
   snd (upload_one example_env example_ctx 1 stream_b) = Inr (Media (JNum 101)) \<and>
   \<not> mentions_raise photo_message \<and>
   fst (assemble example_env example_ctx photo_message example_form) =
     [upload_request_for example_ctx stream_a, upload_request_for example_ctx stream_b] \<and>
   (\<exists>f'. snd (assemble example_env example_ctx photo_message example_form) = Inr f' \<and>
      attachment_list (input f') =
        [Media (JNum 100), Media (JNum 101), Link (JStr (lit ''https://example.org'')),
         Media (JStr (lit ''369''))])"
proof -
  have 1: "attachments photo_message = Some [stream_a, stream_b]"
    by (simp add: photo_message_def)
  have 2: "length [JNum 100, JNum 101] = length [stream_a, stream_b]" by simp
  have a: "isReadableStream example_env stream_a" "isReadableStream example_env stream_b"
    by (simp_all add: example_env_def)
  have b: "snd (upload_one example_env example_ctx 0 stream_a) = Inr (Media (JNum 100))"
    "snd (upload_one example_env example_ctx 1 stream_b) = Inr (Media (JNum 101))"
    by (simp_all add: upload_one_def example_env_def upload_response_def check_upload_def
        and_then_def)
  have 3: "\<forall>k<length [stream_a, stream_b].
      isReadableStream example_env ([stream_a, stream_b] ! k) \<and>
      snd (upload_one example_env example_ctx k ([stream_a, stream_b] ! k))
        = Inr (Media ([JNum 100, JNum 101] ! k))"
    using a b by (simp add: less_Suc_eq)
  have 4: "\<not> mentions_raise photo_message"
    "url photo_message = JStr (lit ''https://example.org'')"
    "sticker photo_message = JNum 369" "attachment_list (input example_form) = []"
    by (simp_all add: photo_message_def mentions_raise_def example_form_def build_form_def)
  have 5: "js_String (JNum 369) = lit ''369''" by (simp add: string_defs)
  from assembled_attachments_in_order [OF 1 2 3, of example_form] 1 a b 4 5
  show ?thesis by auto
qed


text \<open>
  Claim C2, as amended. When some attachment is not a readable stream, the upload
  requests issued are those for the attachments before the first such attachment, in
  order: as many requests as that attachment's position, so none exactly when it is the
  first attachment. The stage then fails with the error of the check, and no form is
  submitted to the mutation endpoint.
\<close>

theorem unreadable_attachment_stops_uploads:
  assumes "attachments m = Some items" and "k < length items"
    and "\<not> isReadableStream e (items ! k)"
  shows "run_stages e c m f =
      (map (upload_request_for c) (takeWhile (isReadableStream e) items), [],
       Inl (ErrorObject (lit ''Attachments must be a readable stream.''))) \<and>
    length (takeWhile (isReadableStream e) items) \<le> k \<and>
    (takeWhile (isReadableStream e) items = [] \<longleftrightarrow> \<not> isReadableStream e (items ! 0))"
proof -
  from assms(2) obtain x xs where items: "items = x # xs" by (cases items) auto
  from assms(2,3) have "\<exists>x \<in> set items. \<not> isReadableStream e x"
    using nth_mem by blast
  then have "map_uploads e c 0 items =
     (map (upload_request_for c) (takeWhile (isReadableStream e) items),
      Inl (ErrorObject (lit ''Attachments must be a readable stream.'')))"
    by (rule map_uploads_unreadable)
  with assms(1) items have "run_stages e c m f =
      (map (upload_request_for c) (takeWhile (isReadableStream e) items), [],
       Inl (ErrorObject (lit ''Attachments must be a readable stream.'')))"
    by (simp add: run_stages_def assemble_def handleUpload_def and_then_def)
  moreover have "length (takeWhile (isReadableStream e) items) \<le> k"
  proof (rule ccontr)
    assume "\<not> length (takeWhile (isReadableStream e) items) \<le> k"
    then have "k < length (takeWhile (isReadableStream e) items)" by simp
    then have "isReadableStream e (items ! k)"
      by (metis nth_mem set_takeWhileD takeWhile_nth)
    with assms(3) show False by simp
  qed
  moreover have "takeWhile (isReadableStream e) items = [] \<longleftrightarrow>
      \<not> isReadableStream e (items ! 0)"
    using items by simp
  ultimately show ?thesis by blast
qed

theorem unreadable_attachment_stops_uploads_witness:
  "attachments mixed_message = Some [stream_a, JStr (lit ''b.png'')] \<and>
   \<not> isReadableStream example_env ([stream_a, JStr (lit ''b.png'')] ! 1) \<and>
   run_stages example_env example_ctx mixed_message example_form =
     ([upload_request_for example_ctx stream_a], [],
      Inl (ErrorObject (lit ''Attachments must be a readable stream.'')))"
proof -
  have 1: "attachments mixed_message = Some [stream_a, JStr (lit ''b.png'')]"
    by (simp add: mixed_message_def)
  have 2: "1 < length [stream_a, JStr (lit ''b.png'')]" by simp
  have 3: "\<not> isReadableStream example_env ([stream_a, JStr (lit ''b.png'')] ! 1)"
    by (simp add: example_env_def stream_a_def stream_b_def)
  have 4: "isReadableStream example_env stream_a" by (simp add: example_env_def)
  from unreadable_attachment_stops_uploads [OF 1 2 3, of example_ctx example_form] 1 3 4
  show ?thesis by simp
qed

text \<open>
  The claim as the specification states it fails: the second attachment is not a
  readable stream, and the first has been sent to the upload endpoint all the same.
\<close>

theorem upload_issued_before_unreadable_attachment:
  "\<not> isReadableStream example_env (JStr (lit ''b.png'')) \<and>
   attachments mixed_message = Some [stream_a, JStr (lit ''b.png'')] \<and>
   upload_requests (createCommentPost example_env example_ctx (MObject mixed_message)
      (Value (JStr (lit ''1''))) (Value JUndefined) None)
     = [upload_request_for example_ctx stream_a]"
  by (simp add: upload_requests_def stage_defs example_defs)

subsection \<open>The per-call fields of the form\<close>

lemma set_tokens_add_lists:
  "add_lists ds rs (set_tokens a b s f) = set_tokens a b s (add_lists ds rs f)"
  by (simp add: add_lists_def set_tokens_def)

lemma mentions_loop_set_tokens:
  "mentions_loop bd ms (set_tokens a b s f) =
     (case mentions_loop bd ms f of Inl x \<Rightarrow> Inl x | Inr f' \<Rightarrow> Inr (set_tokens a b s f'))"
proof (cases bd)
  case None
  then show ?thesis by (simp add: mentions_loop_no_body)
next
  case (Some bs)
  then show ?thesis by (simp add: mentions_loop_concat set_tokens_add_lists)
qed

lemma handleMentions_set_tokens:
  "handleMentions m (set_tokens a b s f) =
     (case handleMentions m f of Inl x \<Rightarrow> Inl x | Inr f' \<Rightarrow> Inr (set_tokens a b s f'))"
  by (simp add: handleMentions_def mentions_loop_set_tokens split: option.splits)

lemma handleUpload_set_tokens:
  "handleUpload e c m (set_tokens a b s f) =
     (case handleUpload e c m f of
        (reqs, r) \<Rightarrow>
          (reqs, case r of Inl x \<Rightarrow> Inl x | Inr f' \<Rightarrow> Inr (set_tokens a b s f')))"
  by (simp add: handleUpload_def and_then_def foldl_push_attachment set_tokens_add_lists
      split: option.splits list.splits prod.splits sum.splits)

lemma assemble_set_tokens:
  "assemble e c m (set_tokens a b s f) =
     (case assemble e c m f of
        (reqs, r) \<Rightarrow>
          (reqs, case r of Inl x \<Rightarrow> Inl x | Inr f' \<Rightarrow> Inr (set_tokens a b s f')))"
  by (simp add: assemble_def and_then_def handleUpload_set_tokens handleMentions_set_tokens
      handleURL_eq handleSticker_eq set_tokens_add_lists
      split: prod.splits sum.splits)

lemma map_uploads_cong_env:
  assumes "isReadableStream e1 = isReadableStream e2" and "postFormData e1 = postFormData e2"
  shows "map_uploads e1 c i items = map_uploads e2 c i items"
  using assms by (induction items arbitrary: i) (simp_all add: upload_one_def)

lemma handleUpload_cong_env:
  assumes "isReadableStream e1 = isReadableStream e2" and "postFormData e1 = postFormData e2"
  shows "handleUpload e1 c m f = handleUpload e2 c m f"
  unfolding handleUpload_def by (simp only: map_uploads_cong_env [OF assms])

lemma assemble_cong_env:
  assumes "isReadableStream e1 = isReadableStream e2" and "postFormData e1 = postFormData e2"
  shows "assemble e1 c m f = assemble e2 c m f"
  by (simp add: assemble_def handleUpload_cong_env [OF assms])

lemma build_form_set_tokens:
  "build_form e2 c m p v =
     set_tokens (lit (decimal (random_rounded e2))) (lit ''client:'' @ getGUID_first e2)
       (getGUID_second e2) (build_form e1 c m p v)"
  by (simp add: build_form_def set_tokens_def)

text \<open>
  Claim C4, as amended. Two calls with the same arguments, whose collaborators answer
  alike, submit request bodies that are equal except for three fields: the second body
  is the first with \<^verbatim>\<open>client_mutation_id\<close> (the decimal string of the rounded random
  draw), \<^verbatim>\<open>idempotence_token\<close> (\<^verbatim>\<open>'client:'\<close> and the first GUID) and \<^verbatim>\<open>session_id\<close>
  (the second GUID) replaced by the values drawn in the second call.
\<close>

theorem request_bodies_equal_up_to_random_fields:
  assumes "isReadableStream e1 = isReadableStream e2" and "postFormData e1 = postFormData e2"
  shows "mutation_requests (createCommentPost e2 c msg postID replyCommentID callback) =
     map (set_tokens (lit (decimal (random_rounded e2))) (lit ''client:'' @ getGUID_first e2)
            (getGUID_second e2))
       (mutation_requests (createCommentPost e1 c msg postID replyCommentID callback))"
proof (cases "normalize msg = None \<or> string_arg postID = None")
  case True
  then show ?thesis by (simp add: mutation_requests_not_runs)
next
  case False
  then obtain m p where m: "normalize msg = Some m" and p: "string_arg postID = Some p"
    by auto
  let ?v = "snd (optional_parameters replyCommentID callback)"
  let ?T = "set_tokens (lit (decimal (random_rounded e2))) (lit ''client:'' @ getGUID_first e2)
            (getGUID_second e2)"
  have "assemble e2 c m (build_form e2 c m p ?v) = assemble e1 c m (?T (build_form e1 c m p ?v))"
    by (subst build_form_set_tokens [of e2 c m p ?v e1]) (rule assemble_cong_env [OF assms, symmetric])
  then show ?thesis
    by (simp add: mutation_requests_runs [OF m p] assemble_set_tokens
        split: prod.splits sum.splits)
qed

theorem request_bodies_equal_up_to_random_fields_witness:
  "isReadableStream example_env = isReadableStream second_env \<and>
   postFormData example_env = postFormData second_env \<and>
   mutation_requests (createCommentPost example_env example_ctx (MString (lit ''hi''))
      (Value (JStr (lit ''1''))) (Value JUndefined) None)
     = [build_form example_env example_ctx
          \<lparr>body = Some (lit ''hi''), attachments = Some [], mentions = Some [],
           url = JUndefined, sticker = JUndefined\<rparr> (lit ''1'') JUndefined] \<and>
   mutation_requests (createCommentPost second_env example_ctx (MString (lit ''hi''))
      (Value (JStr (lit ''1''))) (Value JUndefined) None)
     = [set_tokens (lit ''12'') (lit ''client:g3'') (lit ''g4'')
         (build_form example_env example_ctx
            \<lparr>body = Some (lit ''hi''), attachments = Some [], mentions = Some [],
             url = JUndefined, sticker = JUndefined\<rparr> (lit ''1'') JUndefined)]"
proof -
  have 1: "isReadableStream example_env = isReadableStream second_env"
    and 2: "postFormData example_env = postFormData second_env"
    by (simp_all add: second_env_def)
  have 3: "mutation_requests (createCommentPost example_env example_ctx (MString (lit ''hi''))
      (Value (JStr (lit ''1''))) (Value JUndefined) None)
     = [build_form example_env example_ctx
          \<lparr>body = Some (lit ''hi''), attachments = Some [], mentions = Some [],
           url = JUndefined, sticker = JUndefined\<rparr> (lit ''1'') JUndefined]"
    by (simp add: mutation_requests_def stage_defs example_defs)
  have 4: "lit (decimal (random_rounded second_env)) = lit ''12''"
    "lit ''client:'' @ getGUID_first second_env = lit ''client:g3''"
    "getGUID_second second_env = lit ''g4''"
    by (simp_all add: second_env_def decimal.simps digit_char_def lit_def)
  from request_bodies_equal_up_to_random_fields
    [OF 1 2, of example_ctx "MString (lit ''hi'')" "Value (JStr (lit ''1''))"
       "Value JUndefined" None]
  show ?thesis using 1 2 3 4 by simp
qed

text \<open>
  The claim as the specification states it fails: the bodies of two such calls differ
  in \<^verbatim>\<open>client_mutation_id\<close> as well, which is neither of the two tokens.
\<close>

theorem request_bodies_differ_in_client_mutation_id:
  "\<not> list_all2 same_except_tokens
      (mutation_requests (createCommentPost example_env example_ctx (MString (lit ''hi''))
         (Value (JStr (lit ''1''))) (Value JUndefined) None))
      (mutation_requests (createCommentPost second_env example_ctx (MString (lit ''hi''))
         (Value (JStr (lit ''1''))) (Value JUndefined) None))"
  by (simp add: mutation_requests_def same_except_tokens_def stage_defs example_defs
      decimal.simps digit_char_def lit_def)

subsection \<open>Completion\<close>

lemma complete_once:
  assumes "\<forall>g x. h = CallerCallback g \<longrightarrow> (\<exists>v. g x = Returns v)"
  shows "complete h r =
    ([CallbackCall (case r of Inl err \<Rightarrow> Failure err | Inr info \<Rightarrow> Success info)],
     snd (invoke h (case r of Inl err \<Rightarrow> Failure err | Inr info \<Rightarrow> Success info)))"
proof (cases h)
  case DefaultCallback
  then show ?thesis by (simp add: complete_def split: sum.splits)
next
  case (CallerCallback g)
  show ?thesis
  proof (cases r)
    case (Inl err)
    then show ?thesis by (simp add: complete_def)
  next
    case (Inr info)
    from assms CallerCallback obtain v where "g (Success info) = Returns v" by blast
    with CallerCallback Inr show ?thesis by (simp add: complete_def)
  qed
qed

text \<open>
  Claim C1, as amended. For every call whose message is not \<^verbatim>\<open>null\<close>, and whose
  callback, when the caller supplies one (in its own position or in that of
  \<^verbatim>\<open>replyCommentID\<close>), returns whenever it is called: the callback is invoked exactly
  once, with an error or with a result. When the caller supplies no callback, the promise
  is settled by that invocation: fulfilled with the result, or rejected with the error
  when the error is truthy. When the caller supplies a callback, the promise stays
  pending. When the validation passes, the call returns the promise.
\<close>

theorem callback_invoked_once_and_promise_follows:
  assumes "msg \<noteq> MNull"
    and "\<forall>g x. fst (optional_parameters replyCommentID callback) = Some g
           \<longrightarrow> (\<exists>v. g x = Returns v)"
  shows "\<exists>x. callback_calls (createCommentPost e c msg postID replyCommentID callback) = [x] \<and>
    (case fst (optional_parameters replyCommentID callback) of
       Some g \<Rightarrow>
         returnPromise (createCommentPost e c msg postID replyCommentID callback) = Pending
     | None \<Rightarrow>
         (case x of
            Success info \<Rightarrow>
              returnPromise (createCommentPost e c msg postID replyCommentID callback)
                = Fulfilled info
          | Failure err \<Rightarrow>
              truthy_err err \<longrightarrow>
              returnPromise (createCommentPost e c msg postID replyCommentID callback)
                = Rejected err)) \<and>
    ((typeof_msg msg = ''string'' \<or> typeof_msg msg = ''object'') \<and>
       typeof_arg postID = ''string'' \<longrightarrow>
     returned (createCommentPost e c msg postID replyCommentID callback) = ReturnsPromise)"
proof -
  let ?cb = "fst (optional_parameters replyCommentID callback)"
  let ?h = "completion_handler ?cb"
  have h: "\<forall>g x. ?h = CallerCallback g \<longrightarrow> (\<exists>v. g x = Returns v)"
    using assms(2) by (auto simp: completion_handler_def split: option.splits)
  have failed: ?thesis
    if out: "createCommentPost e c msg postID replyCommentID callback = fail_validation ?h t"
      and bad: "\<not> ((typeof_msg msg = ''string'' \<or> typeof_msg msg = ''object'') \<and>
        typeof_arg postID = ''string'')" for t
  proof -
    have "callback_calls (fail_validation ?h t) = [Failure (validation_error t)]"
      by (simp add: callback_calls_def fail_validation_events)
    moreover have "returnPromise (fail_validation ?h t) =
        (case ?cb of Some g \<Rightarrow> Pending | None \<Rightarrow> Rejected (validation_error t))"
      by (simp add: fail_validation_promise completion_handler_def split: option.splits)
    ultimately show ?thesis using bad unfolding out by (auto split: option.splits)
  qed
  show ?thesis
  proof (cases rule: createCommentPost_cases [where msg = msg and postID = postID])
    case invalid
    then show ?thesis by (intro failed) (auto simp: createCommentPost_invalid)
  next
    case bad_postID
    then show ?thesis
      by (intro failed) (auto simp: createCommentPost_bad_postID string_arg_None)
  next
    case (null p)
    with assms(1) show ?thesis by simp
  next
    case (runs m p)
    obtain reqs submitted r where run:
      "run_stages e c m (build_form e c m p (snd (optional_parameters replyCommentID callback)))
         = (reqs, submitted, r)"
      by (metis prod_cases3)
    let ?x = "case r of Inl err \<Rightarrow> Failure err | Inr info \<Rightarrow> Success info"
    have out: "createCommentPost e c msg postID replyCommentID callback =
      \<lparr>returned = ReturnsPromise, during_call = map UploadRequest reqs,
       after_call = map MutationRequest submitted @ [CallbackCall ?x],
       returnPromise = snd (invoke ?h ?x)\<rparr>"
      by (simp add: createCommentPost_runs [OF runs] run complete_once [OF h])
    have "callback_calls (createCommentPost e c msg postID replyCommentID callback) = [?x]"
      by (simp add: out callback_calls_def)
    moreover have "returnPromise (createCommentPost e c msg postID replyCommentID callback)
        = snd (invoke ?h ?x)"
      by (simp add: out)
    moreover have "returned (createCommentPost e c msg postID replyCommentID callback)
        = ReturnsPromise"
      by (simp add: out)
    ultimately show ?thesis
      by (cases r) (auto simp: completion_handler_def split: option.splits)
  qed
qed

theorem callback_invoked_once_and_promise_follows_witness:
  "MString (lit ''hi'') \<noteq> MNull \<and>
   fst (optional_parameters (Func returning_callback) None) = Some returning_callback \<and>
   returning_callback (Success created_info) = Returns JUndefined \<and>
   callback_calls (createCommentPost example_env example_ctx (MString (lit ''hi''))
      (Value (JStr (lit ''1''))) (Func returning_callback) None) = [Success created_info] \<and>
   returnPromise (createCommentPost example_env example_ctx (MString (lit ''hi''))
      (Value (JStr (lit ''1''))) (Func returning_callback) None) = Pending \<and>
   returned (createCommentPost example_env example_ctx (MString (lit ''hi''))
      (Value (JStr (lit ''1''))) (Func returning_callback) None) = ReturnsPromise"
proof -
  have 1: "MString (lit ''hi'') \<noteq> MNull" by simp
  have 2: "\<forall>g x. fst (optional_parameters (Func returning_callback) None) = Some g
      \<longrightarrow> (\<exists>v. g x = Returns v)"
    by (auto simp: optional_parameters_def returning_callback_def)
  have 3: "callback_calls (createCommentPost example_env example_ctx (MString (lit ''hi''))
      (Value (JStr (lit ''1''))) (Func returning_callback) None) = [Success created_info]"
    by (simp add: callback_calls_def stage_defs example_defs)
  have 4: "typeof_msg (MString (lit ''hi'')) = ''string''"
    "typeof_arg (Value (JStr (lit ''1''))) = ''string''"
    "fst (optional_parameters (Func returning_callback) None) = Some returning_callback"
    "returning_callback (Success created_info) = Returns JUndefined"
    by (simp_all add: optional_parameters_def returning_callback_def)
  from callback_invoked_once_and_promise_follows
    [OF 1 2, of example_env example_ctx "Value (JStr (lit ''1''))"]
  show ?thesis using 3 4 by auto
qed

text \<open>
  The claim as the specification states it fails: with a callback of the caller the
  call succeeds and invokes the callback with the result, and the promise it returned is
  never settled.
\<close>

theorem promise_pending_with_caller_callback:
  "\<not> dual_completion
      (createCommentPost example_env example_ctx (MString (lit ''hi''))
         (Value (JStr (lit ''1''))) (Value JUndefined) (Some returning_callback))"
  by (simp add: dual_completion_def callback_calls_def stage_defs example_defs)

end
